theory Spec2Isabelle
  imports Main
begin

section \<open>Strings of the host language\<close>

text \<open>
  A string is a \<^typ>\<open>string\<close>. The functions below are the string methods the sources call
  (\<^verbatim>\<open>indexOf\<close>, \<^verbatim>\<open>substring\<close>, \<^verbatim>\<open>startsWith\<close>, \<^verbatim>\<open>includes\<close>, \<^verbatim>\<open>split\<close>,
  \<^verbatim>\<open>replace(/^#*/, "#")\<close>, \<^verbatim>\<open>toLowerCase\<close>), with the results the language
  defines for them: \<^verbatim>\<open>indexOf\<close> answers \<open>-1\<close> when there is no occurrence, and
  \<^verbatim>\<open>substring\<close> clamps each index into \<open>0 .. length\<close> and swaps them when the first
  is the larger one.
\<close>

definition startsWith :: "string \<Rightarrow> string \<Rightarrow> bool" where
  "startsWith s p = (take (length p) s = p)"

fun indexOf :: "string \<Rightarrow> string \<Rightarrow> int" where
  "indexOf [] sub = (if sub = [] then 0 else - 1)"
| "indexOf (x # xs) sub =
     (if startsWith (x # xs) sub then 0
      else (let i = indexOf xs sub in if i = - 1 then - 1 else i + 1))"

definition includes_str :: "string \<Rightarrow> string \<Rightarrow> bool" where
  "includes_str s sub = (indexOf s sub \<noteq> - 1)"

definition clampIndex :: "string \<Rightarrow> int \<Rightarrow> nat" where
  "clampIndex s i = (if i < 0 then 0 else min (nat i) (length s))"

definition substring :: "string \<Rightarrow> int \<Rightarrow> int \<Rightarrow> string" where
  "substring s a b =
     (let a' = clampIndex s a; b' = clampIndex s b;
          lo = min a' b'; hi = max a' b'
      in take (hi - lo) (drop lo s))"

definition substringFrom :: "string \<Rightarrow> int \<Rightarrow> string" where
  "substringFrom s a = drop (clampIndex s a) s"

text \<open>\<^verbatim>\<open>s.split(c)\<close> for a one-character separator: never an empty array.\<close>

fun split :: "string \<Rightarrow> char \<Rightarrow> string list" where
  "split [] c = [[]]"
| "split (x # xs) c =
     (if x = c then [] # split xs c
      else (case split xs c of
              [] \<Rightarrow> [[x]]
            | y # ys \<Rightarrow> (x # y) # ys))"

text \<open>\<^verbatim>\<open>Array.prototype.pop\<close>: the last element, \<^verbatim>\<open>undefined\<close> on an empty array.\<close>

definition pop :: "'a list \<Rightarrow> 'a option" where
  "pop xs = (if xs = [] then None else Some (last xs))"

text \<open>\<^verbatim>\<open>s.replace(/^#*/, "#")\<close>: the leading run of \<open>#\<close> (maybe empty) becomes one \<open>#\<close>.\<close>

definition replaceLeadingHashes :: "string \<Rightarrow> string" where
  "replaceLeadingHashes s = CHR ''#'' # dropWhile (\<lambda>c. c = CHR ''#'') s"

text \<open>\<^verbatim>\<open>toLowerCase\<close> on the ASCII letters; other characters are kept.\<close>

definition lowerChar :: "char \<Rightarrow> char" where
  "lowerChar c =
     (let n = (of_char c :: nat) in if 65 \<le> n \<and> n \<le> 90 then char_of (n + 32) else c)"

definition toLowerCase :: "string \<Rightarrow> string" where
  "toLowerCase s = map lowerChar s"

section \<open>URLSearchParams\<close>

text \<open>
  The platform's \<^verbatim>\<open>URLSearchParams\<close> is an ordered list of name/value pairs, with
  duplicates. The constructor drops one leading \<open>?\<close>, splits on \<open>&\<close>, skips empty
  pieces, splits each piece at its first \<open>=\<close>, turns \<open>+\<close> into a space and
  percent-decodes name and value. A string stands for its UTF-8 bytes here; the
  replacement of ill-formed byte sequences by U+FFFD that the platform adds after
  percent-decoding is not part of the model.
\<close>

type_synonym URLSearchParams = "(string \<times> string) list"

definition isHexDigit :: "char \<Rightarrow> bool" where
  "isHexDigit c =
     (let n = (of_char c :: nat)
      in (48 \<le> n \<and> n \<le> 57) \<or> (65 \<le> n \<and> n \<le> 70) \<or> (97 \<le> n \<and> n \<le> 102))"

definition hexValue :: "char \<Rightarrow> nat" where
  "hexValue c =
     (let n = (of_char c :: nat)
      in if n \<le> 57 then n - 48 else if n \<le> 70 then n - 55 else n - 87)"

fun percentDecode :: "string \<Rightarrow> string" where
  "percentDecode (c # h1 # h2 # rest) =
     (if c = CHR ''%'' \<and> isHexDigit h1 \<and> isHexDigit h2
      then char_of (16 * hexValue h1 + hexValue h2) # percentDecode rest
      else c # percentDecode (h1 # h2 # rest))"
| "percentDecode s = s"

definition plusToSpace :: "string \<Rightarrow> string" where
  "plusToSpace s = map (\<lambda>c. if c = CHR ''+'' then CHR '' '' else c) s"

definition parsePair :: "string \<Rightarrow> string \<times> string" where
  "parsePair piece =
     (let name = takeWhile (\<lambda>c. c \<noteq> CHR ''='') piece;
          val = drop 1 (dropWhile (\<lambda>c. c \<noteq> CHR ''='') piece)
      in (percentDecode (plusToSpace name), percentDecode (plusToSpace val)))"

definition newURLSearchParams :: "string \<Rightarrow> URLSearchParams" where
  "newURLSearchParams init =
     (let body = (if startsWith init ''?'' then drop 1 init else init)
      in map parsePair (filter (\<lambda>piece. piece \<noteq> []) (split body (CHR ''&''))))"

definition has :: "URLSearchParams \<Rightarrow> string \<Rightarrow> bool" where
  "has ps name = (map_of ps name \<noteq> None)"

text \<open>\<^verbatim>\<open>get\<close>: the value of the first pair with that name, \<^verbatim>\<open>null\<close> when there is none.\<close>

definition get :: "URLSearchParams \<Rightarrow> string \<Rightarrow> string option" where
  "get ps name = map_of ps name"

definition getAll :: "URLSearchParams \<Rightarrow> string \<Rightarrow> string list" where
  "getAll ps name = map snd (filter (\<lambda>p. fst p = name) ps)"

text \<open>
  \<^verbatim>\<open>toString\<close>: the pairs as \<open>name=value\<close> joined by \<open>&\<close>; letters, digits and
  \<open>* - . _\<close> are kept, a space becomes \<open>+\<close>, every other byte becomes \<open>%HH\<close>.
\<close>

definition hexDigit :: "nat \<Rightarrow> char" where
  "hexDigit n = (if n < 10 then char_of (48 + n) else char_of (55 + n))"

definition isUnreserved :: "char \<Rightarrow> bool" where
  "isUnreserved c =
     (let n = (of_char c :: nat)
      in (48 \<le> n \<and> n \<le> 57) \<or> (65 \<le> n \<and> n \<le> 90) \<or> (97 \<le> n \<and> n \<le> 122)
         \<or> c = CHR ''*'' \<or> c = CHR ''-'' \<or> c = CHR ''.'' \<or> c = CHR ''_'')"

definition encodeByte :: "char \<Rightarrow> string" where
  "encodeByte c =
     (if isUnreserved c then [c]
      else if c = CHR '' '' then ''+''
      else (let n = (of_char c :: nat) in [CHR ''%'', hexDigit (n div 16), hexDigit (n mod 16)]))"

definition formEncode :: "string \<Rightarrow> string" where
  "formEncode s = concat (map encodeByte s)"

fun joinWith :: "string \<Rightarrow> string list \<Rightarrow> string" where
  "joinWith sep [] = []"
| "joinWith sep [x] = x"
| "joinWith sep (x # y # ys) = x @ sep @ joinWith sep (y # ys)"

definition toString :: "URLSearchParams \<Rightarrow> string" where
  "toString ps = joinWith ''&'' (map (\<lambda>p. formEncode (fst p) @ ''='' @ formEncode (snd p)) ps)"

section \<open>What a query string spells\<close>

text \<open>
  The reading of a query string that the statements about launch parameters are measured
  against. It is not taken from the sources: it is the encoding of the URL standard, read
  from the text to the string. A raw text spells a string when the text is the string
  written character by character: a character other than \<open>% + & = ?\<close> as itself, a
  space as \<open>+\<close>, and any byte as \<open>%\<close> followed by its two hexadecimal digits, in either
  case of the letters. A piece of a query spells a parameter when it is a spelled name,
  \<open>=\<close> and a spelled value, or a spelled name alone for the empty value. A query, given
  by its pieces between the \<open>&\<close>, spells a list of parameters when its pieces, the empty
  ones apart, spell them one by one.
\<close>

inductive spells :: "string \<Rightarrow> string \<Rightarrow> bool" where
  spells_end: "spells [] []"
| spells_plain:
    "c \<notin> set ''%+&=?'' \<Longrightarrow> spells raw s \<Longrightarrow> spells (c # raw) (c # s)"
| spells_plus: "spells raw s \<Longrightarrow> spells (CHR ''+'' # raw) (CHR '' '' # s)"
| spells_escape:
    "isHexDigit h1 \<Longrightarrow> isHexDigit h2 \<Longrightarrow> spells raw s \<Longrightarrow>
     spells (CHR ''%'' # h1 # h2 # raw) (char_of (16 * hexValue h1 + hexValue h2) # s)"

code_pred spells .

inductive spelledPiece :: "string \<Rightarrow> string \<times> string \<Rightarrow> bool" where
  piece_pair: "spells rawName name \<Longrightarrow> spells rawValue val \<Longrightarrow>
     spelledPiece (rawName @ ''='' @ rawValue) (name, val)"
| piece_flag: "spells rawName name \<Longrightarrow> rawName \<noteq> [] \<Longrightarrow>
     spelledPiece rawName (name, [])"

definition spelledQuery :: "string list \<Rightarrow> (string \<times> string) list \<Rightarrow> bool" where
  "spelledQuery pieces ps = list_all2 spelledPiece (filter (\<lambda>piece. piece \<noteq> []) pieces) ps"

section \<open>UrlParams.ts\<close>

subsection \<open>editFragmentQuery\<close>

definition editFragmentQuery :: "string \<Rightarrow> (URLSearchParams \<Rightarrow> URLSearchParams) \<Rightarrow> string" where
  "editFragmentQuery hash edit =
     (let fragmentQueryStart = indexOf hash ''?'';
          fragmentParams = edit (newURLSearchParams
            (if fragmentQueryStart = - 1 then '''' else substringFrom hash fragmentQueryStart))
      in substring hash 0 fragmentQueryStart @ ''?'' @ toString fragmentParams)"

subsection \<open>ParamParser\<close>

record ParamParser =
  fragmentParams :: URLSearchParams
  queryParams :: URLSearchParams

definition newParamParser :: "string \<Rightarrow> string \<Rightarrow> ParamParser" where
  "newParamParser search hash =
     (let fragmentQueryStart = indexOf hash ''?''
      in \<lparr> fragmentParams = newURLSearchParams
             (if fragmentQueryStart = - 1 then '''' else substringFrom hash fragmentQueryStart),
           queryParams = newURLSearchParams search \<rparr>)"

text \<open>
  The three readers. Each of \<^verbatim>\<open>hasParam\<close> and \<^verbatim>\<open>getParam\<close> also logs a warning when
  the name is found in the query string only; the log is no part of the value they
  return and is left out.
\<close>

definition hasParam :: "ParamParser \<Rightarrow> string \<Rightarrow> bool" where
  "hasParam p name = (has (fragmentParams p) name \<or> has (queryParams p) name)"

definition getParam :: "ParamParser \<Rightarrow> string \<Rightarrow> string option" where
  "getParam p name =
     (case get (fragmentParams p) name of
        Some v \<Rightarrow> Some v
      | None \<Rightarrow> get (queryParams p) name)"

definition getAllParams :: "ParamParser \<Rightarrow> string \<Rightarrow> string list" where
  "getAllParams p name = getAll (fragmentParams p) name @ getAll (queryParams p) name"

subsection \<open>getUrlParams\<close>

text \<open>
  The launch parameters. The field \<^verbatim>\<open>fontScale\<close> (a \<^verbatim>\<open>parseFloat\<close> of the
  parameter) is a floating-point number and is not part of the record.
\<close>

record UrlParams =
  roomId :: "string option"
  password :: "string option"
  isEmbedded :: bool
  preload :: bool
  hideHeader :: bool
  hideScreensharing :: bool
  e2eEnabled :: bool
  userId :: "string option"
  displayName :: "string option"
  deviceId :: "string option"
  baseUrl :: "string option"
  lang :: "string option"
  fonts :: "string list"
  analyticsID :: "string option"
  allowIceFallback :: bool

definition PASSWORD_PARAM :: string where
  "PASSWORD_PARAM = ''password''"

definition getUrlParams :: "string \<Rightarrow> string \<Rightarrow> UrlParams" where
  "getUrlParams search hash =
     (let parser = newParamParser search hash
      in \<lparr> roomId = getParam parser ''roomId'',
           password = getParam parser PASSWORD_PARAM,
           isEmbedded = hasParam parser ''embed'',
           preload = hasParam parser ''preload'',
           hideHeader = hasParam parser ''hideHeader'',
           hideScreensharing = hasParam parser ''hideScreensharing'',
           e2eEnabled = (getParam parser ''enableE2e'' \<noteq> Some ''false''),
           userId = getParam parser ''userId'',
           displayName = getParam parser ''displayName'',
           deviceId = getParam parser ''deviceId'',
           baseUrl = getParam parser ''baseUrl'',
           lang = getParam parser ''lang'',
           fonts = getAllParams parser ''font'',
           analyticsID = getParam parser ''analyticsID'',
           allowIceFallback = hasParam parser ''allowIceFallback'' \<rparr>)"

subsection \<open>getRoomIdentifierFromUrl\<close>

record RoomIdentifier =
  roomAlias :: "string option"
  roomIdentifierRoomId :: "string option"
  viaServers :: "string list"

text \<open>
  \<open>defaultServerName\<close> is what \<^verbatim>\<open>Config.defaultServerName()\<close> returns. The two
  warnings the function logs are left out.
\<close>

definition baseRoomString :: "string \<Rightarrow> string \<Rightarrow> string option" where
  "baseRoomString pathname hash =
     (if hash = '''' \<or> startsWith hash ''#?''
      then pop (split pathname (CHR ''/''))
      else Some hash)"

definition aliasOf :: "string \<Rightarrow> string option \<Rightarrow> string option" where
  "aliasOf defaultServerName base =
     (case base of
        None \<Rightarrow> None
      | Some b \<Rightarrow>
          (let roomAlias = replaceLeadingHashes b
           in if \<not> includes_str roomAlias '':''
              then Some (roomAlias @ '':'' @ defaultServerName)
              else Some roomAlias))"

definition validRoomId :: "string option \<Rightarrow> string option" where
  "validRoomId r =
     (case r of
        None \<Rightarrow> None
      | Some s \<Rightarrow>
          (if \<not> startsWith s ''!'' then None
           else if \<not> includes_str s '''' then None
           else Some s))"

definition getRoomIdentifierFromUrl ::
  "string \<Rightarrow> string \<Rightarrow> string \<Rightarrow> string \<Rightarrow> RoomIdentifier" where
  "getRoomIdentifierFromUrl defaultServerName pathname search hash =
     (let parser = newParamParser search hash
      in \<lparr> roomAlias = aliasOf defaultServerName (baseRoomString pathname hash),
           roomIdentifierRoomId = validRoomId (getParam parser ''roomId''),
           viaServers = getAllParams parser ''viaServers'' \<rparr>)"

section \<open>Values shared by the room components\<close>

text \<open>
  A thrown or rejected error: an object that may carry an \<^verbatim>\<open>errcode\<close> and a
  \<^verbatim>\<open>message\<close>. A nullable boolean or string is an \<^typ>\<open>'a option\<close>, and the
  two functions below are the truthiness the language gives it in a condition.
\<close>

record js_error =
  errcode :: "string option"
  message :: "string option"

definition truthyBool :: "bool option \<Rightarrow> bool" where
  "truthyBool b = (b = Some True)"

definition truthyString :: "string option \<Rightarrow> bool" where
  "truthyString s = (s \<noteq> None \<and> s \<noteq> Some '''')"

text \<open>
  What the components read of a \<^verbatim>\<open>MatrixRTCSession\<close>: the id of its room, its
  memberships, and the answer of \<^verbatim>\<open>getOldestMembership()\<close>. A membership carries its
  sender, its device and the answer of \<^verbatim>\<open>getActiveFoci()\<close>; \<open>'f\<close> is the type of a
  focus.
\<close>

record 'f CallMembership =
  sender :: string
  membershipDeviceId :: string
  getActiveFoci :: "'f list"

record 'f MatrixRTCSession =
  sessionRoomId :: string
  memberships :: "'f CallMembership list"
  getOldestMembership :: "'f CallMembership option"

section \<open>room/useActiveFocus.ts\<close>

definition getActiveFocus :: "'f MatrixRTCSession \<Rightarrow> 'f option" where
  "getActiveFocus rtcSession =
     (case getOldestMembership rtcSession of
        None \<Rightarrow> None
      | Some oldestMembership \<Rightarrow>
          (case getActiveFoci oldestMembership of
             [] \<Rightarrow> None
           | focus # _ \<Rightarrow> Some focus))"

text \<open>
  \<^verbatim>\<open>onMembershipsChanged\<close> is the listener of the memberships-changed notification.
  \<open>activeFocus\<close> is the published value the listener was built over, \<open>deepCompare\<close> the
  library's structural comparison. The result is the list of calls of the state setter
  that the listener makes.
\<close>

datatype 'f FocusEffect = SetActiveFocus "'f option"

definition onMembershipsChanged ::
  "('f option \<Rightarrow> 'f option \<Rightarrow> bool) \<Rightarrow> 'f option \<Rightarrow> 'f MatrixRTCSession \<Rightarrow> 'f FocusEffect list" where
  "onMembershipsChanged deepCompare activeFocus rtcSession =
     (let newActiveFocus = getActiveFocus rtcSession
      in if \<not> deepCompare activeFocus newActiveFocus
         then [SetActiveFocus newActiveFocus]
         else [])"

fun applyFocusEffects :: "'f option \<Rightarrow> 'f FocusEffect list \<Rightarrow> 'f option" where
  "applyFocusEffects activeFocus [] = activeFocus"
| "applyFocusEffects activeFocus (SetActiveFocus v # es) = applyFocusEffects v es"

text \<open>
  The hook over a mount: the published value starts as \<open>getActiveFocus\<close> of the session,
  and each notification (given by the session as it is at that moment) runs the listener
  over the value published by then.
\<close>

fun notified ::
  "('f option \<Rightarrow> 'f option \<Rightarrow> bool) \<Rightarrow> 'f option \<Rightarrow> 'f MatrixRTCSession list \<Rightarrow> 'f option" where
  "notified deepCompare activeFocus [] = activeFocus"
| "notified deepCompare activeFocus (rtcSession # later) =
     notified deepCompare
       (applyFocusEffects activeFocus (onMembershipsChanged deepCompare activeFocus rtcSession))
       later"

definition useActiveFocus ::
  "('f option \<Rightarrow> 'f option \<Rightarrow> bool) \<Rightarrow> 'f MatrixRTCSession \<Rightarrow> 'f MatrixRTCSession list \<Rightarrow> 'f option" where
  "useActiveFocus deepCompare rtcSession notifications =
     notified deepCompare (getActiveFocus rtcSession) notifications"

section \<open>room/GroupCallView.tsx\<close>

text \<open>
  The props of the component (without the client), the values its hooks and its own state
  give it in one render, and the module-level values it reads: whether \<^verbatim>\<open>widget\<close> is
  there (the app is embedded), what \<^verbatim>\<open>PosthogAnalytics.instance.isEnabled()\<close> and
  \<^verbatim>\<open>isE2EESupported()\<close> answer.
\<close>

record 'f Props =
  isPasswordlessUser :: bool
  confineToRoom :: bool
  preload :: bool
  skipLobby :: bool
  hideHeader :: bool
  rtcSession :: "'f MatrixRTCSession"

record ViewState =
  isJoined :: bool
  e2eeSharedKey :: "string option"
  isRoomE2EE :: "bool option"
  e2eeEnabled :: "bool option"
  left :: bool
  leaveError :: "js_error option"

record Globals =
  widget :: bool
  posthogIsEnabled :: bool
  isE2EESupported :: bool

subsection \<open>What the component renders\<close>

datatype Rendered =
    ErrorView string
  | IncompatibleBrowser
  | ActiveCall "string option"
  | CallEndedView "js_error option"
  | RenderNull
  | LobbyView

definition noKeyMessage :: string where
  "noKeyMessage = ''No E2EE key provided: please make sure the URL you're using to join this call has been retrieved using the in-app button.''"

definition e2eeConfig :: "ViewState \<Rightarrow> string option" where
  "e2eeConfig st = (if truthyString (e2eeSharedKey st) then e2eeSharedKey st else None)"

definition GroupCallView :: "Globals \<Rightarrow> 'f Props \<Rightarrow> ViewState \<Rightarrow> Rendered" where
  "GroupCallView g props st =
     (if truthyBool (e2eeEnabled st) \<and> truthyBool (isRoomE2EE st)
           \<and> \<not> truthyString (e2eeSharedKey st)
      then ErrorView noKeyMessage
      else if \<not> isE2EESupported g \<and> truthyBool (isRoomE2EE st)
      then IncompatibleBrowser
      else if \<not> truthyBool (e2eeEnabled st) \<and> truthyBool (isRoomE2EE st)
      then ErrorView ''You need to enable E2EE to join.''
      else if isJoined st
      then ActiveCall (e2eeConfig st)
      else if left st
      then (if isPasswordlessUser props
                \<or> (posthogIsEnabled g \<and> \<not> widget g)
                \<or> leaveError st \<noteq> None
            then CallEndedView (leaveError st)
            else RenderNull)
      else if Props.preload props
      then RenderNull
      else LobbyView)"

subsection \<open>onLeave\<close>

text \<open>
  The calls \<^verbatim>\<open>onLeave\<close> makes, in the order it makes them. \<open>Wait n\<close> is the
  \<^verbatim>\<open>await\<close> of a timer of \<open>n\<close> milliseconds: what follows it runs once the timer has
  fired. \<open>posthogIsEnabled\<close> is read by the last condition, after the wait.
\<close>

datatype WidgetAction = JoinCall | HangupCall

datatype LeaveEffect =
    SetLeaveError "js_error option"
  | SetLeft bool
  | EventCallEndedTrack string nat bool
  | LeaveRTCSession
  | Wait nat
  | SetAlwaysOnScreen bool
  | PosthogLogout
  | TransportSend WidgetAction
  | HistoryPush string

definition onLeave :: "Globals \<Rightarrow> 'f Props \<Rightarrow> js_error option \<Rightarrow> LeaveEffect list" where
  "onLeave g props leaveErr =
     [SetLeaveError leaveErr,
      SetLeft True,
      EventCallEndedTrack (sessionRoomId (rtcSession props))
        (length (memberships (rtcSession props))) (widget g),
      LeaveRTCSession]
     @ (if widget g
        then [Wait 10, SetAlwaysOnScreen False, PosthogLogout, TransportSend HangupCall]
        else [])
     @ (if \<not> isPasswordlessUser props \<and> \<not> confineToRoom props \<and> \<not> posthogIsEnabled g
        then [HistoryPush ''/'']
        else [])"

section \<open>room/useLoadGroupCall.ts\<close>

text \<open>
  A promise of the outside world settles with a value, settles with an error, or never
  settles.
\<close>

datatype 'a Outcome = Resolves 'a | Rejects js_error | Pending

datatype SyncState = SyncError | Prepared | Stopped | Syncing | Catchup | Reconnecting

record Room =
  roomRoomId :: string

text \<open>
  What the outside world answers during one run of the load effect. Of the client:
  \<open>getSyncState\<close> at the start of the run, the states it reports at the sync events that
  follow, the outcome of \<^verbatim>\<open>joinRoom\<close>, the outcome of
  \<^verbatim>\<open>waitUntilRoomReadyForGroupCalls\<close> (its first argument counts the calls made before
  in the run), \<^verbatim>\<open>getRoom\<close>, and \<^verbatim>\<open>matrixRTC.getRoomSession\<close>, which returns a
  session of type \<open>'s\<close> or throws. Of the helper modules: \<^verbatim>\<open>isLocalRoomId\<close>,
  \<^verbatim>\<open>roomNameFromRoomId\<close>, the outcome of \<^verbatim>\<open>createRoom\<close> (a pair whose second
  component is the room id), \<^verbatim>\<open>getRoomSharedKeyLocalStorageKey\<close>, and the string
  \<^verbatim>\<open>randomString\<close> returns.
\<close>

record 's World =
  getSyncState :: SyncState
  syncEvents :: "SyncState list"
  joinRoom :: "string \<Rightarrow> string list \<Rightarrow> Room Outcome"
  waitUntilRoomReadyForGroupCalls :: "nat \<Rightarrow> string \<Rightarrow> unit Outcome"
  getRoom :: "string \<Rightarrow> Room option"
  getRoomSession :: "Room option \<Rightarrow> js_error + 's"
  isLocalRoomId :: "string \<Rightarrow> bool"
  roomNameFromRoomId :: "string \<Rightarrow> string"
  createRoom :: "string \<Rightarrow> bool \<Rightarrow> bool \<Rightarrow> (string \<times> string) Outcome"
  getRoomSharedKeyLocalStorageKey :: "string \<Rightarrow> string"
  randomString :: "nat \<Rightarrow> string"

datatype 's GroupCallStatus = Loading | Loaded 's | Failed js_error

text \<open>The calls a run makes on the outside world and on the hook's state, in order.\<close>

datatype 's LoadEffect =
    JoinRoom string "string list"
  | WaitUntilRoomReady string
  | CreateRoom string bool bool
  | SetLocalStorageItem string string
  | SetState "'s GroupCallStatus"

fun isWaitUntilRoomReady :: "'s LoadEffect \<Rightarrow> bool" where
  "isWaitUntilRoomReady (WaitUntilRoomReady _) = True"
| "isWaitUntilRoomReady _ = False"

definition waitForClientSyncing :: "'s World \<Rightarrow> unit Outcome" where
  "waitForClientSyncing w =
     (if getSyncState w \<noteq> Syncing
      then (if Syncing \<in> set (syncEvents w) then Resolves () else Pending)
      else Resolves ())"

definition sanitisedIdOrAlias :: "string \<Rightarrow> string" where
  "sanitisedIdOrAlias roomIdOrAlias =
     (if take 1 roomIdOrAlias = ''#'' then toLowerCase roomIdOrAlias else roomIdOrAlias)"

text \<open>The \<^verbatim>\<open>try\<close> block of \<^verbatim>\<open>fetchOrCreateRoom\<close>.\<close>

definition joinAttempt ::
  "'s World \<Rightarrow> string \<Rightarrow> string list \<Rightarrow> 's LoadEffect list \<times> Room Outcome" where
  "joinAttempt w roomIdOrAlias via =
     (let sanitised = sanitisedIdOrAlias roomIdOrAlias
      in case joinRoom w sanitised via of
           Resolves room \<Rightarrow>
             ([JoinRoom sanitised via, WaitUntilRoomReady (roomRoomId room)],
              (case waitUntilRoomReadyForGroupCalls w 0 (roomRoomId room) of
                 Resolves _ \<Rightarrow> Resolves room
               | Rejects e \<Rightarrow> Rejects e
               | Pending \<Rightarrow> Pending))
         | Rejects e \<Rightarrow> ([JoinRoom sanitised via], Rejects e)
         | Pending \<Rightarrow> ([JoinRoom sanitised via], Pending))"

text \<open>The condition of the \<^verbatim>\<open>catch\<close> block on the error.\<close>

definition notFound :: "js_error \<Rightarrow> bool" where
  "notFound e =
     (errcode e = Some ''M_NOT_FOUND''
      \<or> (case message e of
            None \<Rightarrow> False
          | Some m \<Rightarrow> m \<noteq> '''' \<and> indexOf m ''Failed to fetch alias'' \<noteq> - 1))"

definition nullishFalse :: "bool option \<Rightarrow> bool" where
  "nullishFalse b = (case b of None \<Rightarrow> False | Some v \<Rightarrow> v)"

text \<open>
  The creating branch of the \<^verbatim>\<open>catch\<close> block; \<open>waits\<close> is the number of calls of
  \<^verbatim>\<open>waitUntilRoomReadyForGroupCalls\<close> made before it.
\<close>

definition createBranch ::
  "'s World \<Rightarrow> nat \<Rightarrow> string \<Rightarrow> bool \<Rightarrow> bool option
     \<Rightarrow> 's LoadEffect list \<times> Room option Outcome" where
  "createBranch w waits roomIdOrAlias createPtt e2ee =
     (let name = roomNameFromRoomId w roomIdOrAlias;
          create = CreateRoom name createPtt (nullishFalse e2ee)
      in case createRoom w name createPtt (nullishFalse e2ee) of
           Resolves created \<Rightarrow>
             (let roomId = snd created;
                  store = (if truthyBool e2ee
                           then [SetLocalStorageItem (getRoomSharedKeyLocalStorageKey w roomId)
                                   (randomString w 32)]
                           else [])
              in (create # store @ [WaitUntilRoomReady roomId],
                  (case waitUntilRoomReadyForGroupCalls w waits roomId of
                     Resolves _ \<Rightarrow> Resolves (getRoom w roomId)
                   | Rejects e \<Rightarrow> Rejects e
                   | Pending \<Rightarrow> Pending)))
         | Rejects e \<Rightarrow> ([create], Rejects e)
         | Pending \<Rightarrow> ([create], Pending))"

definition fetchOrCreateRoom ::
  "'s World \<Rightarrow> string \<Rightarrow> string list \<Rightarrow> bool \<Rightarrow> bool option
     \<Rightarrow> 's LoadEffect list \<times> Room option Outcome" where
  "fetchOrCreateRoom w roomIdOrAlias via createPtt e2ee =
     (case joinAttempt w roomIdOrAlias via of
        (tr, Resolves room) \<Rightarrow> (tr, Resolves (Some room))
      | (tr, Pending) \<Rightarrow> (tr, Pending)
      | (tr, Rejects error) \<Rightarrow>
          (if isLocalRoomId w roomIdOrAlias \<and> notFound error
           then (let created = createBranch w (length (filter isWaitUntilRoomReady tr))
                                 roomIdOrAlias createPtt e2ee
                 in (tr @ fst created, snd created))
           else (tr, Rejects error)))"

definition fetchOrCreateGroupCall ::
  "'s World \<Rightarrow> string \<Rightarrow> string list \<Rightarrow> bool \<Rightarrow> bool option
     \<Rightarrow> 's LoadEffect list \<times> 's Outcome" where
  "fetchOrCreateGroupCall w roomIdOrAlias via createPtt e2ee =
     (case fetchOrCreateRoom w roomIdOrAlias via createPtt e2ee of
        (tr, Resolves room) \<Rightarrow>
          (case getRoomSession w room of
             Inl e \<Rightarrow> (tr, Rejects e)
           | Inr session \<Rightarrow> (tr, Resolves session))
      | (tr, Rejects e) \<Rightarrow> (tr, Rejects e)
      | (tr, Pending) \<Rightarrow> (tr, Pending))"

text \<open>
  One run of the effect of \<^verbatim>\<open>useLoadGroupCall\<close>: the chain
  \<^verbatim>\<open>waitForClientSyncing().then(fetchOrCreateGroupCall).then(loaded).catch(failed)\<close>.
\<close>

definition loadEffect ::
  "'s World \<Rightarrow> string \<Rightarrow> string list \<Rightarrow> bool \<Rightarrow> bool option \<Rightarrow> 's LoadEffect list" where
  "loadEffect w roomIdOrAlias via createPtt e2ee =
     (case waitForClientSyncing w of
        Pending \<Rightarrow> []
      | Rejects e \<Rightarrow> [SetState (Failed e)]
      | Resolves _ \<Rightarrow>
          (case fetchOrCreateGroupCall w roomIdOrAlias via createPtt e2ee of
             (tr, Resolves session) \<Rightarrow> tr @ [SetState (Loaded session)]
           | (tr, Rejects e) \<Rightarrow> tr @ [SetState (Failed e)]
           | (tr, Pending) \<Rightarrow> tr))"

text \<open>
  The hook over one mount. Its state starts as \<open>Loading\<close>; the effect runs at the mount
  and again at every change of one of its dependencies; each \<open>SetState\<close> of a run
  replaces the state. A run is given by the values of the dependencies and by the world
  it meets, and the runs are taken in the order in which they settle.
\<close>

record 's EffectRun =
  runWorld :: "'s World"
  runRoomIdOrAlias :: string
  runViaServers :: "string list"
  runCreatePtt :: bool
  runE2eeEnabled :: "bool option"

definition runEffect :: "'s EffectRun \<Rightarrow> 's LoadEffect list" where
  "runEffect r =
     loadEffect (runWorld r) (runRoomIdOrAlias r) (runViaServers r) (runCreatePtt r)
       (runE2eeEnabled r)"

fun applyLoadEffects :: "'s GroupCallStatus \<Rightarrow> 's LoadEffect list \<Rightarrow> 's GroupCallStatus" where
  "applyLoadEffects st [] = st"
| "applyLoadEffects st (SetState st' # es) = applyLoadEffects st' es"
| "applyLoadEffects st (_ # es) = applyLoadEffects st es"

fun afterRuns :: "'s GroupCallStatus \<Rightarrow> 's EffectRun list \<Rightarrow> 's GroupCallStatus" where
  "afterRuns st [] = st"
| "afterRuns st (r # rs) = afterRuns (applyLoadEffects st (runEffect r)) rs"

definition useLoadGroupCall :: "'s EffectRun list \<Rightarrow> 's GroupCallStatus" where
  "useLoadGroupCall runs = afterRuns Loading runs"

fun isCreateRoom :: "'s LoadEffect \<Rightarrow> bool" where
  "isCreateRoom (CreateRoom _ _ _) = True"
| "isCreateRoom _ = False"

fun isSetState :: "'s LoadEffect \<Rightarrow> bool" where
  "isSetState (SetState _) = True"
| "isSetState _ = False"

fun isHistoryPush :: "LeaveEffect \<Rightarrow> bool" where
  "isHistoryPush (HistoryPush _) = True"
| "isHistoryPush _ = False"

text \<open>
  The calls of \<^verbatim>\<open>setState\<close> of one run, which the last two handlers of the chain
  make: none while a promise is pending, else one.
\<close>

definition settles ::
  "'s World \<Rightarrow> string \<Rightarrow> string list \<Rightarrow> bool \<Rightarrow> bool option \<Rightarrow> 's LoadEffect list" where
  "settles w roomIdOrAlias via createPtt e2ee =
     (case waitForClientSyncing w of
        Pending \<Rightarrow> []
      | Rejects e \<Rightarrow> [SetState (Failed e)]
      | Resolves _ \<Rightarrow>
          (case snd (fetchOrCreateGroupCall w roomIdOrAlias via createPtt e2ee) of
             Resolves session \<Rightarrow> [SetState (Loaded session)]
           | Rejects e \<Rightarrow> [SetState (Failed e)]
           | Pending \<Rightarrow> []))"

section \<open>Concrete values\<close>

text \<open>
  A session whose oldest membership advertises two foci, a focus being named by its URL.
\<close>

definition oldestOfStandup :: "string CallMembership" where
  "oldestOfStandup =
     \<lparr> sender = ''@alice:call.example.org'', membershipDeviceId = ''DEVICE1'',
       getActiveFoci = [''https://sfu.example.org'', ''https://other.example.org''] \<rparr>"

definition standupSession :: "string MatrixRTCSession" where
  "standupSession =
     \<lparr> sessionRoomId = ''!abc:call.example.org'',
       memberships = [oldestOfStandup],
       getOldestMembership = Some oldestOfStandup \<rparr>"

text \<open>
  Three worlds for one run of the load effect, with a session named by the id of its
  room. In \<open>worldNotFound\<close> the client is syncing, the join is rejected with
  \<open>M_NOT_FOUND\<close>, every identifier is local and the room can be created; in
  \<open>worldForbidden\<close> the join is rejected with \<open>M_FORBIDDEN\<close>; in \<open>worldJoins\<close> the
  client starts syncing at its second sync event and the join succeeds.
\<close>

definition worldNotFound :: "string World" where
  "worldNotFound =
     \<lparr> getSyncState = Syncing,
       syncEvents = [],
       joinRoom = (\<lambda>idOrAlias servers.
         Rejects \<lparr> errcode = Some ''M_NOT_FOUND'', message = Some ''Room not found'' \<rparr>),
       waitUntilRoomReadyForGroupCalls = (\<lambda>n roomId. Resolves ()),
       getRoom = (\<lambda>roomId. Some \<lparr> roomRoomId = roomId \<rparr>),
       getRoomSession = (\<lambda>room.
         case room of
           None \<Rightarrow> Inl \<lparr> errcode = None, message = Some ''no room'' \<rparr>
         | Some r \<Rightarrow> Inr (roomRoomId r)),
       isLocalRoomId = (\<lambda>idOrAlias. True),
       roomNameFromRoomId = (\<lambda>idOrAlias. drop 1 (takeWhile (\<lambda>c. c \<noteq> CHR '':'') idOrAlias)),
       createRoom = (\<lambda>name ptt e2ee. Resolves (''#'' @ name @ '':call.example.org'', ''!new:call.example.org'')),
       getRoomSharedKeyLocalStorageKey = (\<lambda>roomId. ''room-shared-key-'' @ roomId),
       randomString = (\<lambda>n. replicate n (CHR ''k'')) \<rparr>"

definition worldForbidden :: "string World" where
  "worldForbidden =
     worldNotFound \<lparr> joinRoom := (\<lambda>idOrAlias servers.
       Rejects \<lparr> errcode = Some ''M_FORBIDDEN'', message = Some ''You are not invited'' \<rparr>) \<rparr>"

definition worldJoins :: "string World" where
  "worldJoins =
     worldNotFound \<lparr> getSyncState := Prepared,
                     syncEvents := [Prepared, Syncing],
                     joinRoom := (\<lambda>idOrAlias servers. Resolves \<lparr> roomRoomId = ''!abc:call.example.org'' \<rparr>) \<rparr>"

definition runOn :: "string World \<Rightarrow> bool option \<Rightarrow> string EffectRun" where
  "runOn w enabled =
     \<lparr> runWorld = w, runRoomIdOrAlias = ''#Standup:call.example.org'', runViaServers = [],
       runCreatePtt = False, runE2eeEnabled = enabled \<rparr>"

section \<open>Properties of UrlParams.ts\<close>

subsection \<open>String helpers\<close>

lemma indexOf_ge: "- 1 \<le> indexOf s sub"
  by (induction s) (auto simp: Let_def)

lemma indexOf_single: "indexOf s [c] = - 1 \<longleftrightarrow> c \<notin> set s"
proof (induction s)
  case Nil
  show ?case by simp
next
  case (Cons x xs)
  have "indexOf xs [c] + 1 \<noteq> - 1" using indexOf_ge [of xs "[c]"] by arith
  with Cons show ?case by (auto simp: Let_def startsWith_def)
qed

lemma includes_str_single: "includes_str s [c] \<longleftrightarrow> c \<in> set s"
  by (simp add: includes_str_def indexOf_single)

lemma split_nonempty: "split s c \<noteq> []"
  by (induction s) (auto split: list.splits)

lemma pop_split: "pop (split s c) = Some (last (split s c))"
  by (simp add: pop_def split_nonempty)

lemma indexOf_prefix:
  "c \<notin> set pre \<Longrightarrow> indexOf (pre @ c # rest) [c] = int (length pre)"
  by (induction pre) (auto simp: Let_def startsWith_def)

lemma baseRoomString_Some: "baseRoomString pathname hash \<noteq> None"
  by (simp add: baseRoomString_def pop_split)

lemma dropWhile_not_startsWith:
  "\<not> startsWith (dropWhile (\<lambda>c. c = x) s) [x]"
  by (induction s) (simp_all add: startsWith_def)

lemma dropWhile_append_not_startsWith:
  "y \<noteq> x \<Longrightarrow> \<not> startsWith (dropWhile (\<lambda>c. c = x) s @ y # t) [x]"
  by (induction s) (simp_all add: startsWith_def)

lemma includes_replaceLeadingHashes:
  "includes_str (replaceLeadingHashes s) '':'' \<longleftrightarrow> CHR '':'' \<in> set s"
proof -
  have "set s = set (takeWhile (\<lambda>c. c = CHR ''#'') s) \<union> set (dropWhile (\<lambda>c. c = CHR ''#'') s)"
    by (metis set_append takeWhile_dropWhile_id)
  moreover have "CHR '':'' \<notin> set (takeWhile (\<lambda>c. c = CHR ''#'') s)"
    by (auto dest: set_takeWhileD)
  ultimately show ?thesis
    by (auto simp: includes_str_single replaceLeadingHashes_def)
qed

lemma getParam_None_iff: "getParam p name = None \<longleftrightarrow> \<not> hasParam p name"
  by (simp add: getParam_def hasParam_def has_def get_def split: option.splits)

subsection \<open>Launch parameters\<close>

lemma percentDecode_plain:
  "c \<noteq> CHR ''%'' \<Longrightarrow> percentDecode (c # xs) = c # percentDecode xs"
  by (cases xs rule: percentDecode.cases) simp_all

lemma isHexDigit_not_plus: "isHexDigit h \<Longrightarrow> h \<noteq> CHR ''+''"
  by (auto simp: isHexDigit_def Let_def)

lemma spells_decodes: "spells raw s \<Longrightarrow> percentDecode (plusToSpace raw) = s"
proof (induction rule: spells.induct)
  case spells_end
  show ?case by (simp add: plusToSpace_def)
next
  case (spells_plain c raw s)
  then show ?case by (simp add: plusToSpace_def percentDecode_plain)
next
  case (spells_plus raw s)
  then show ?case by (simp add: plusToSpace_def percentDecode_plain)
next
  case (spells_escape h1 h2 raw s)
  then show ?case
    by (simp add: plusToSpace_def isHexDigit_not_plus)
qed

lemma spells_chars:
  "spells raw s \<Longrightarrow> CHR ''&'' \<notin> set raw \<and> CHR ''='' \<notin> set raw \<and> CHR ''?'' \<notin> set raw"
proof (induction rule: spells.induct)
  case (spells_escape h1 h2 raw s)
  then show ?case by (auto simp: isHexDigit_def Let_def)
qed auto

lemma takeWhile_until: "x \<notin> set xs \<Longrightarrow> takeWhile (\<lambda>c. c \<noteq> x) (xs @ x # ys) = xs"
  by (induction xs) auto

lemma dropWhile_until: "x \<notin> set xs \<Longrightarrow> dropWhile (\<lambda>c. c \<noteq> x) (xs @ x # ys) = x # ys"
  by (induction xs) auto

lemma takeWhile_all: "x \<notin> set xs \<Longrightarrow> takeWhile (\<lambda>c. c \<noteq> x) xs = xs"
  by (induction xs) auto

lemma dropWhile_all: "x \<notin> set xs \<Longrightarrow> dropWhile (\<lambda>c. c \<noteq> x) xs = []"
  by (induction xs) auto

lemma spelledPiece_parsePair: "spelledPiece piece p \<Longrightarrow> parsePair piece = p"
proof (induction rule: spelledPiece.induct)
  case (piece_pair rawName name rawValue val)
  have e: "CHR ''='' \<notin> set rawName" using piece_pair(1) by (simp add: spells_chars)
  have t: "takeWhile (\<lambda>c. c \<noteq> CHR ''='') (rawName @ ''='' @ rawValue) = rawName"
    using e by (simp add: takeWhile_until)
  have d: "dropWhile (\<lambda>c. c \<noteq> CHR ''='') (rawName @ ''='' @ rawValue) = CHR ''='' # rawValue"
    using e by (simp add: dropWhile_until)
  have n: "percentDecode (plusToSpace rawName) = name"
    using piece_pair(1) by (rule spells_decodes)
  have v: "percentDecode (plusToSpace rawValue) = val"
    using piece_pair(2) by (rule spells_decodes)
  show ?case
    unfolding parsePair_def Let_def t d by (simp add: n v)
next
  case (piece_flag rawName name)
  have e: "CHR ''='' \<notin> set rawName" using piece_flag(1) by (simp add: spells_chars)
  have t: "takeWhile (\<lambda>c. c \<noteq> CHR ''='') rawName = rawName"
    using e by (rule takeWhile_all)
  have d: "dropWhile (\<lambda>c. c \<noteq> CHR ''='') rawName = []"
    using e by (rule dropWhile_all)
  have n: "percentDecode (plusToSpace rawName) = name"
    using piece_flag(1) by (rule spells_decodes)
  have v: "percentDecode (plusToSpace []) = []"
    by (simp add: plusToSpace_def)
  show ?case
    unfolding parsePair_def Let_def t d by (simp add: n v)
qed

lemma spelledPiece_chars:
  "spelledPiece piece p \<Longrightarrow> CHR ''&'' \<notin> set piece \<and> CHR ''?'' \<notin> set piece"
  by (induction rule: spelledPiece.induct) (auto dest: spells_chars)

lemma split_no_separator: "c \<notin> set s \<Longrightarrow> split s c = [s]"
  by (induction s) auto

lemma split_at_separator: "c \<notin> set s \<Longrightarrow> split (s @ c # rest) c = s # split rest c"
  by (induction s) auto

lemma split_joinWith:
  assumes "pieces \<noteq> []" and "\<forall>p \<in> set pieces. c \<notin> set p"
  shows "split (joinWith [c] pieces) c = pieces"
  using assms
proof (induction "[c]" pieces rule: joinWith.induct)
  case 1
  then show ?case by simp
next
  case (2 x)
  then show ?case by (simp add: split_no_separator)
next
  case (3 x y ys)
  then show ?case by (simp add: split_at_separator)
qed

lemma set_joinWith: "set (joinWith sep pieces) \<subseteq> set sep \<union> \<Union> (set ` set pieces)"
  by (induction sep pieces rule: joinWith.induct) auto

lemma list_all2_map_eq: "list_all2 (\<lambda>x y. f x = y) xs ys \<Longrightarrow> map f xs = ys"
  by (induction rule: list_all2_induct) simp_all

lemma list_all2_left: "list_all2 P xs ys \<Longrightarrow> x \<in> set xs \<Longrightarrow> \<exists>y. P x y"
  by (induction rule: list_all2_induct) auto

lemma spelledQuery_chars:
  assumes "spelledQuery pieces ps" and "piece \<in> set pieces"
  shows "CHR ''&'' \<notin> set piece \<and> CHR ''?'' \<notin> set piece"
proof (cases "piece = []")
  case True
  then show ?thesis by simp
next
  case False
  then have "piece \<in> set (filter (\<lambda>piece. piece \<noteq> []) pieces)"
    using assms(2) by simp
  with assms(1) have "\<exists>p. spelledPiece piece p"
    unfolding spelledQuery_def by (rule list_all2_left)
  then obtain p where "spelledPiece piece p" ..
  then show ?thesis by (rule spelledPiece_chars)
qed

lemma spelledQuery_parsed:
  assumes "spelledQuery pieces ps"
  shows "map parsePair (filter (\<lambda>piece. piece \<noteq> []) pieces) = ps"
proof -
  have "list_all2 (\<lambda>piece p. parsePair piece = p) (filter (\<lambda>piece. piece \<noteq> []) pieces) ps"
    using assms unfolding spelledQuery_def
    by (rule list_all2_mono) (rule spelledPiece_parsePair)
  then show ?thesis by (rule list_all2_map_eq)
qed

lemma newURLSearchParams_spelled:
  assumes "spelledQuery pieces ps"
  shows "newURLSearchParams ((if mark then ''?'' else '''') @ joinWith ''&'' pieces) = ps"
proof -
  let ?q = "joinWith ''&'' pieces"
  have amp: "\<forall>p \<in> set pieces. CHR ''&'' \<notin> set p"
    using assms by (auto dest: spelledQuery_chars)
  have "CHR ''?'' \<notin> set ?q"
    using set_joinWith [of "''&''" pieces] assms by (auto dest: spelledQuery_chars)
  then have no_mark: "\<not> startsWith ?q ''?''"
    by (cases ?q) (auto simp: startsWith_def)
  have body: "newURLSearchParams ((if mark then ''?'' else '''') @ ?q) =
      map parsePair (filter (\<lambda>piece. piece \<noteq> []) (split ?q (CHR ''&'')))"
    using no_mark by (simp add: newURLSearchParams_def startsWith_def)
  have "filter (\<lambda>piece. piece \<noteq> []) (split ?q (CHR ''&'')) =
      filter (\<lambda>piece. piece \<noteq> []) pieces"
  proof (cases "pieces = []")
    case True
    then show ?thesis by simp
  next
    case False
    then show ?thesis using amp by (simp add: split_joinWith)
  qed
  then show ?thesis
    using assms by (simp add: body spelledQuery_parsed)
qed

lemma fragment_of_hash:
  assumes "CHR ''?'' \<notin> set pre"
  shows "fragmentParams (newParamParser search (pre @ CHR ''?'' # query)) =
           newURLSearchParams (CHR ''?'' # query)"
proof -
  have i: "indexOf (pre @ CHR ''?'' # query) ''?'' = int (length pre)"
    using assms by (rule indexOf_prefix)
  show ?thesis
    by (simp add: newParamParser_def i substringFrom_def clampIndex_def Let_def)
qed

lemma fragment_of_plain_hash:
  assumes "CHR ''?'' \<notin> set hash"
  shows "fragmentParams (newParamParser search hash) = []"
proof -
  have "indexOf hash ''?'' = - 1" using assms by (simp add: indexOf_single)
  then show ?thesis
    by (simp add: newParamParser_def newURLSearchParams_def startsWith_def)
qed

lemma query_of_search: "queryParams (newParamParser search hash) = newURLSearchParams search"
  by (simp add: newParamParser_def Let_def)

lemma e2eEnabled_getParam:
  "e2eEnabled (getUrlParams search hash)
     \<longleftrightarrow> getParam (newParamParser search hash) ''enableE2e'' \<noteq> Some ''false''"
  by (simp add: getUrlParams_def Let_def)

text \<open>
  C4: take a URL whose fragment query (what follows the first \<open>?\<close> of the hash) spells
  the parameters \<open>fs\<close> and whose query string, with or without its \<open>?\<close>, spells the
  parameters \<open>qs\<close>. Then \<open>e2eEnabled\<close> is decided by the first \<open>enableE2e\<close> of \<open>fs\<close>,
  and by the first of \<open>qs\<close> when \<open>fs\<close> has none: it is false exactly when that value
  is the string \<open>false\<close>, and true when the value is another string or when neither has
  the parameter. When the hash has no \<open>?\<close>, the query string alone decides. For every
  search and hash, \<open>e2eEnabled\<close> is true exactly when the value the parser resolves is
  not \<open>false\<close>, and the parser resolves no value exactly when neither part has the name.
\<close>

theorem getUrlParams_e2eEnabled:
  assumes f: "spelledQuery fragmentPieces fs"
    and q: "spelledQuery searchPieces qs"
    and p: "CHR ''?'' \<notin> set pre"
  shows "(e2eEnabled (getUrlParams ((if mark then ''?'' else '''') @ joinWith ''&'' searchPieces)
                        (pre @ ''?'' @ joinWith ''&'' fragmentPieces))
            \<longleftrightarrow> (case map_of fs ''enableE2e'' of
                   Some v \<Rightarrow> v \<noteq> ''false''
                 | None \<Rightarrow> (case map_of qs ''enableE2e'' of
                              Some v \<Rightarrow> v \<noteq> ''false''
                            | None \<Rightarrow> True)))
         \<and> (e2eEnabled (getUrlParams ((if mark then ''?'' else '''') @ joinWith ''&'' searchPieces)
                          pre)
            \<longleftrightarrow> (case map_of qs ''enableE2e'' of
                   Some v \<Rightarrow> v \<noteq> ''false''
                 | None \<Rightarrow> True))
         \<and> (e2eEnabled (getUrlParams search hash)
            \<longleftrightarrow> getParam (newParamParser search hash) ''enableE2e'' \<noteq> Some ''false'')
         \<and> (getParam (newParamParser search hash) ''enableE2e'' = None
            \<longleftrightarrow> \<not> hasParam (newParamParser search hash) ''enableE2e'')"
proof -
  let ?search = "(if mark then ''?'' else '''') @ joinWith ''&'' searchPieces"
  let ?hash = "pre @ ''?'' @ joinWith ''&'' fragmentPieces"
  have fr: "fragmentParams (newParamParser ?search ?hash) = fs"
    using newURLSearchParams_spelled [OF f, of True]
    by (simp add: fragment_of_hash [OF p])
  have qu: "queryParams (newParamParser ?search h) = qs" for h
    using newURLSearchParams_spelled [OF q, of mark]
    by (simp only: query_of_search)
  have fr0: "fragmentParams (newParamParser ?search pre) = []"
    using p by (rule fragment_of_plain_hash)
  have both: "getParam (newParamParser ?search ?hash) ''enableE2e'' =
      (case map_of fs ''enableE2e'' of Some v \<Rightarrow> Some v | None \<Rightarrow> map_of qs ''enableE2e'')"
    by (simp only: getParam_def get_def fr qu)
  have only: "getParam (newParamParser ?search pre) ''enableE2e'' = map_of qs ''enableE2e''"
    by (simp add: getParam_def get_def fr0 qu)
  have a: "e2eEnabled (getUrlParams ?search ?hash)
            \<longleftrightarrow> (case map_of fs ''enableE2e'' of
                   Some v \<Rightarrow> v \<noteq> ''false''
                 | None \<Rightarrow> (case map_of qs ''enableE2e'' of
                              Some v \<Rightarrow> v \<noteq> ''false''
                            | None \<Rightarrow> True))"
    by (simp only: e2eEnabled_getParam both) (simp split: option.splits)
  have b: "e2eEnabled (getUrlParams ?search pre)
            \<longleftrightarrow> (case map_of qs ''enableE2e'' of
                   Some v \<Rightarrow> v \<noteq> ''false''
                 | None \<Rightarrow> True)"
    by (simp only: e2eEnabled_getParam only) (simp split: option.splits)
  from a b e2eEnabled_getParam [of search hash] getParam_None_iff
  show ?thesis by blast
qed

theorem getUrlParams_e2eEnabled_witness:
  "e2eEnabled (getUrlParams ''?enableE2e=true'' ''#?embed&&enableE2e=%66alse'') = False
   \<and> e2eEnabled (getUrlParams ''?enableE2e=true'' ''#'') = True
   \<and> e2eEnabled (getUrlParams '''' '''') = True
   \<and> e2eEnabled (getUrlParams '''' ''#?enableE2e=false'') = False
   \<and> e2eEnabled (getUrlParams ''?enableE2e=false'' ''#room'') = False
   \<and> e2eEnabled (getUrlParams '''' ''#?enableE2e=anythingElse'') = True"
proof -
  have name: "spells ''enableE2e'' ''enableE2e''"
    by (intro spells.intros) simp_all
  have "spells ''embed'' ''embed''"
    by (intro spells.intros) simp_all
  then have embed: "spelledPiece ''embed'' (''embed'', '''')"
    by (rule piece_flag) simp
  have cf: "char_of (102 :: nat) = CHR ''f''"
    by code_simp
  have "spells ''alse'' ''alse''"
    by (intro spells.intros) simp_all
  then have "spells (CHR ''%'' # CHR ''6'' # CHR ''6'' # ''alse'')
      (char_of (16 * hexValue (CHR ''6'') + hexValue (CHR ''6'')) # ''alse'')"
    by (intro spells_escape) (simp_all add: isHexDigit_def)
  then have escaped: "spells ''%66alse'' ''false''"
    by (simp add: hexValue_def cf)
  have plain: "spells ''false'' ''false''"
    by (intro spells.intros) simp_all
  have true: "spells ''true'' ''true''"
    by (intro spells.intros) simp_all
  have other: "spells ''anythingElse'' ''anythingElse''"
    by (intro spells.intros) simp_all
  have p1: "spelledPiece ''enableE2e=%66alse'' (''enableE2e'', ''false'')"
    using piece_pair [OF name escaped] by simp
  have p2: "spelledPiece ''enableE2e=true'' (''enableE2e'', ''true'')"
    using piece_pair [OF name true] by simp
  have p3: "spelledPiece ''enableE2e=false'' (''enableE2e'', ''false'')"
    using piece_pair [OF name plain] by simp
  have p4: "spelledPiece ''enableE2e=anythingElse'' (''enableE2e'', ''anythingElse'')"
    using piece_pair [OF name other] by simp
  have f1: "spelledQuery [''embed'', '''', ''enableE2e=%66alse'']
      [(''embed'', ''''), (''enableE2e'', ''false'')]"
    using embed p1 by (simp add: spelledQuery_def)
  have q1: "spelledQuery [''enableE2e=true''] [(''enableE2e'', ''true'')]"
    using p2 by (simp add: spelledQuery_def)
  have f3: "spelledQuery [''enableE2e=false''] [(''enableE2e'', ''false'')]"
    using p3 by (simp add: spelledQuery_def)
  have f4: "spelledQuery [''enableE2e=anythingElse''] [(''enableE2e'', ''anythingElse'')]"
    using p4 by (simp add: spelledQuery_def)
  have none: "spelledQuery [] []"
    by (simp add: spelledQuery_def)
  have h: "CHR ''?'' \<notin> set ''#''" and r: "CHR ''?'' \<notin> set ''#room''"
    and e: "CHR ''?'' \<notin> set ''''"
    by simp_all
  note t1 = getUrlParams_e2eEnabled [OF f1 q1 h, of True]
  from t1 [THEN conjunct1] t1 [THEN conjunct2, THEN conjunct1]
  have a: "e2eEnabled (getUrlParams ''?enableE2e=true'' ''#?embed&&enableE2e=%66alse'') = False
      \<and> e2eEnabled (getUrlParams ''?enableE2e=true'' ''#'') = True"
    by simp
  from getUrlParams_e2eEnabled [OF none none e, of False, THEN conjunct2, THEN conjunct1]
  have b: "e2eEnabled (getUrlParams '''' '''') = True"
    by simp
  from getUrlParams_e2eEnabled [OF f3 none h, of False, THEN conjunct1]
  have c: "e2eEnabled (getUrlParams '''' ''#?enableE2e=false'') = False"
    by simp
  from getUrlParams_e2eEnabled [OF none f3 r, of True, THEN conjunct2, THEN conjunct1]
  have d: "e2eEnabled (getUrlParams ''?enableE2e=false'' ''#room'') = False"
    by simp
  from getUrlParams_e2eEnabled [OF f4 none h, of False, THEN conjunct1]
  have g: "e2eEnabled (getUrlParams '''' ''#?enableE2e=anythingElse'') = True"
    by simp
  from a b c d g show ?thesis by blast
qed

subsection \<open>Room identifier\<close>

text \<open>
  C5: when the hash is empty or begins with \<open>#?\<close>, the alias is built from the last
  segment of the path between slashes: its leading run of \<open>#\<close> is replaced by one
  \<open>#\<close>, and \<open>:\<close> with the configured default server name is appended exactly when
  the segment holds no \<open>:\<close>. What follows the first \<open>#\<close> of the alias does not begin
  with \<open>#\<close>.
\<close>

theorem getRoomIdentifierFromUrl_alias:
  assumes "hash = '''' \<or> startsWith hash ''#?''"
  shows "(let candidate = last (split pathname (CHR ''/''));
              rest = dropWhile (\<lambda>c. c = CHR ''#'') candidate
          in roomAlias (getRoomIdentifierFromUrl defaultServerName pathname search hash) =
               Some (CHR ''#'' #
                     (if CHR '':'' \<in> set candidate then rest
                      else rest @ '':'' @ defaultServerName))
             \<and> \<not> startsWith (if CHR '':'' \<in> set candidate then rest
                               else rest @ '':'' @ defaultServerName) ''#'')"
proof -
  have b: "baseRoomString pathname hash = Some (last (split pathname (CHR ''/'')))"
    using assms by (auto simp: baseRoomString_def pop_split)
  have a: "roomAlias (getRoomIdentifierFromUrl defaultServerName pathname search hash) =
      aliasOf defaultServerName (Some (last (split pathname (CHR ''/''))))"
    by (simp add: getRoomIdentifierFromUrl_def b Let_def)
  have c: "aliasOf defaultServerName (Some cand) =
      Some (CHR ''#'' #
            (if CHR '':'' \<in> set cand then dropWhile (\<lambda>c. c = CHR ''#'') cand
             else dropWhile (\<lambda>c. c = CHR ''#'') cand @ '':'' @ defaultServerName))" for cand
    by (simp add: aliasOf_def Let_def includes_replaceLeadingHashes)
      (simp add: replaceLeadingHashes_def)
  have d: "\<not> startsWith (dropWhile (\<lambda>c. c = CHR ''#'') cand) ''#''" for cand
    by (rule dropWhile_not_startsWith)
  have e: "\<not> startsWith (dropWhile (\<lambda>c. c = CHR ''#'') cand @ '':'' @ defaultServerName) ''#''"
    for cand
    using dropWhile_append_not_startsWith [of "CHR '':''" "CHR ''#''" cand defaultServerName]
    by simp
  show ?thesis
    unfolding Let_def a c using d e by simp
qed

theorem getRoomIdentifierFromUrl_alias_witness:
  "roomAlias (getRoomIdentifierFromUrl ''call.example.org'' ''/#foo'' '''' '''')
     = Some ''#foo:call.example.org''
   \<and> roomAlias (getRoomIdentifierFromUrl ''call.example.org'' ''/#foo:example.org'' '''' ''#?embed'')
     = Some ''#foo:example.org''
   \<and> roomAlias (getRoomIdentifierFromUrl ''call.example.org'' ''/room/###Foo'' ''?x=1'' '''')
     = Some ''#Foo:call.example.org''"
proof -
  have h1: "('''' :: string) = '''' \<or> startsWith '''' ''#?''" by simp
  have h2: "''#?embed'' = '''' \<or> startsWith ''#?embed'' ''#?''" by (simp add: startsWith_def)
  show ?thesis
    using getRoomIdentifierFromUrl_alias [OF h1, of "''/#foo''" "''call.example.org''" "''''"]
      getRoomIdentifierFromUrl_alias [OF h2, of "''/#foo:example.org''" "''call.example.org''" "''''"]
      getRoomIdentifierFromUrl_alias [OF h1, of "''/room/###Foo''" "''call.example.org''" "''?x=1''"]
    by (simp add: Let_def)
qed

text \<open>
  C10: for every pathname, search and hash the alias is present and begins with \<open>#\<close>:
  a split is never empty, so a candidate is always there, and an empty candidate gives
  \<open>#:\<close> followed by the configured default server name.
\<close>

theorem getRoomIdentifierFromUrl_alias_present:
  "(\<exists>rest. roomAlias (getRoomIdentifierFromUrl defaultServerName pathname search hash)
             = Some (CHR ''#'' # rest))
   \<and> split pathname (CHR ''/'') \<noteq> []
   \<and> baseRoomString pathname hash \<noteq> None
   \<and> roomAlias (getRoomIdentifierFromUrl defaultServerName '''' search '''')
         = Some (''#:'' @ defaultServerName)"
proof -
  obtain b where b: "baseRoomString pathname hash = Some b"
    using baseRoomString_Some [of pathname hash] by auto
  have "\<exists>rest. roomAlias (getRoomIdentifierFromUrl defaultServerName pathname search hash)
             = Some (CHR ''#'' # rest)"
    by (simp add: getRoomIdentifierFromUrl_def b aliasOf_def Let_def replaceLeadingHashes_def)
  moreover have "roomAlias (getRoomIdentifierFromUrl defaultServerName '''' search '''')
         = Some (''#:'' @ defaultServerName)"
    by (simp add: getRoomIdentifierFromUrl_def baseRoomString_def pop_def aliasOf_def
        replaceLeadingHashes_def includes_str_def startsWith_def Let_def)
  ultimately show ?thesis
    by (simp add: split_nonempty baseRoomString_Some)
qed

subsection \<open>editFragmentQuery\<close>

lemma editFragmentQuery_no_query:
  assumes "CHR ''?'' \<notin> set hash"
  shows "editFragmentQuery hash edit = ''?'' @ toString (edit [])"
proof -
  have "indexOf hash ''?'' = - 1" using assms by (simp add: indexOf_single)
  then show ?thesis
    by (simp add: editFragmentQuery_def substring_def clampIndex_def newURLSearchParams_def startsWith_def)
qed

lemma editFragmentQuery_with_query:
  assumes "CHR ''?'' \<notin> set pre"
  shows "editFragmentQuery (pre @ ''?'' @ rest) edit =
           pre @ ''?'' @ toString (edit (newURLSearchParams (''?'' @ rest)))"
proof -
  have i: "indexOf (pre @ CHR ''?'' # rest) ''?'' = int (length pre)"
    using assms by (rule indexOf_prefix)
  show ?thesis
    by (simp add: editFragmentQuery_def i substring_def substringFrom_def clampIndex_def Let_def)
qed

text \<open>
  C8: on a hash with a \<open>?\<close> the result is the part before the first \<open>?\<close>, then
  \<open>?\<close>, then the edited parameters (\<open>editFragmentQuery_with_query\<close>). On a hash
  without \<open>?\<close> the part before it, which is the whole hash, is lost
  (\<open>editFragmentQuery_no_query\<close>): \<^verbatim>\<open>indexOf\<close> answers \<open>-1\<close> and
  \<^verbatim>\<open>substring(0, -1)\<close> is the empty string. With the identity edit the hash
  \<open>#room\<close> becomes \<open>?\<close> and not \<open>#room?\<close>.
\<close>

theorem editFragmentQuery_drops_prefix:
  "editFragmentQuery ''#room'' (\<lambda>params. params) = ''?''
   \<and> editFragmentQuery ''#room'' (\<lambda>params. params) \<noteq> ''#room?''"
  by code_simp

section \<open>Properties of GroupCallView.tsx\<close>

text \<open>
  C1: when the encryption setting is on, the room is encrypted and no shared key is there
  (the key is \<^verbatim>\<open>null\<close> or empty), the component renders the error view with the
  message about the missing key, whatever the props, the join state, the left flag and
  the module-level values are.
\<close>

theorem GroupCallView_no_key:
  assumes "truthyBool (e2eeEnabled st)"
    and "truthyBool (isRoomE2EE st)"
    and "\<not> truthyString (e2eeSharedKey st)"
  shows "GroupCallView g props st = ErrorView noKeyMessage"
  using assms by (simp add: GroupCallView_def)

theorem GroupCallView_no_key_witness:
  "GroupCallView
     \<lparr> widget = True, posthogIsEnabled = True, isE2EESupported = False \<rparr>
     \<lparr> isPasswordlessUser = True, confineToRoom = True, preload = True, skipLobby = True,
       hideHeader = False,
       rtcSession = \<lparr> sessionRoomId = ''!abc:call.example.org'', memberships = [],
                      getOldestMembership = (None :: string CallMembership option) \<rparr> \<rparr>
     \<lparr> isJoined = True, e2eeSharedKey = None, isRoomE2EE = Some True,
       e2eeEnabled = Some True, left = True, leaveError = None \<rparr>
   = ErrorView noKeyMessage"
  by (rule GroupCallView_no_key) (simp_all add: truthyBool_def truthyString_def)

text \<open>
  C3, as the claim states it, fails: for an embedded user who is not passwordless and not
  confined to the room, with analytics off, the last call of \<^verbatim>\<open>onLeave\<close> is the
  navigation to the home screen, not the hangup sent to the host.
\<close>

theorem onLeave_hangup_not_last:
  "widget \<lparr> widget = True, posthogIsEnabled = False, isE2EESupported = True \<rparr>
   \<and> last (onLeave \<lparr> widget = True, posthogIsEnabled = False, isE2EESupported = True \<rparr>
              \<lparr> isPasswordlessUser = False, confineToRoom = False, preload = False,
                skipLobby = False, hideHeader = False, rtcSession = standupSession \<rparr>
              None) = HistoryPush ''/''
   \<and> last (onLeave \<lparr> widget = True, posthogIsEnabled = False, isE2EESupported = True \<rparr>
              \<lparr> isPasswordlessUser = False, confineToRoom = False, preload = False,
                skipLobby = False, hideHeader = False, rtcSession = standupSession \<rparr>
              None) \<noteq> TransportSend HangupCall"
  by (simp add: onLeave_def)

text \<open>
  C3, amended: when embedded, \<^verbatim>\<open>onLeave\<close> makes its calls in this order: the leave
  error is recorded and the left flag set, the call-ended event is tracked (sent
  instantly), the session is left, the timer of 10 ms is awaited, "always on screen" is
  cleared, analytics is logged out, and the hangup action is sent to the host. The hangup
  is the last call unless the user is not passwordless, the app is not confined to the
  room and analytics is not enabled: then the navigation to the home screen follows it.
\<close>

theorem onLeave_embedded_order:
  assumes "widget g"
  shows "onLeave g props leaveErr =
           [SetLeaveError leaveErr,
            SetLeft True,
            EventCallEndedTrack (sessionRoomId (rtcSession props))
              (length (memberships (rtcSession props))) True,
            LeaveRTCSession,
            Wait 10,
            SetAlwaysOnScreen False,
            PosthogLogout,
            TransportSend HangupCall]
           @ (if \<not> isPasswordlessUser props \<and> \<not> confineToRoom props
                   \<and> \<not> posthogIsEnabled g
              then [HistoryPush ''/'']
              else [])"
  using assms by (simp add: onLeave_def)

theorem onLeave_embedded_order_witness:
  "onLeave \<lparr> widget = True, posthogIsEnabled = False, isE2EESupported = True \<rparr>
     \<lparr> isPasswordlessUser = False, confineToRoom = False, preload = False, skipLobby = True,
       hideHeader = True, rtcSession = standupSession \<rparr>
     (Some \<lparr> errcode = None, message = Some ''connection lost'' \<rparr>)
   = [SetLeaveError (Some \<lparr> errcode = None, message = Some ''connection lost'' \<rparr>),
      SetLeft True,
      EventCallEndedTrack ''!abc:call.example.org'' 1 True,
      LeaveRTCSession,
      Wait 10,
      SetAlwaysOnScreen False,
      PosthogLogout,
      TransportSend HangupCall,
      HistoryPush ''/'']"
proof -
  have w: "widget \<lparr> widget = True, posthogIsEnabled = False, isE2EESupported = True \<rparr>" by simp
  show ?thesis
    by (subst onLeave_embedded_order [OF w]) (simp add: standupSession_def)
qed

text \<open>
  C9, as the claim states it, fails: a passwordless user who is not embedded and not
  confined to the room, with analytics off, is not sent to the home screen.
\<close>

theorem onLeave_navigates_home_counterexample:
  "\<not> widget \<lparr> widget = False, posthogIsEnabled = False, isE2EESupported = True \<rparr>
   \<and> \<not> confineToRoom
         \<lparr> isPasswordlessUser = True, confineToRoom = False, preload = False, skipLobby = False,
           hideHeader = False,
           rtcSession = \<lparr> sessionRoomId = ''!abc:call.example.org'', memberships = [],
                          getOldestMembership = (None :: string CallMembership option) \<rparr> \<rparr>
   \<and> \<not> posthogIsEnabled \<lparr> widget = False, posthogIsEnabled = False, isE2EESupported = True \<rparr>
   \<and> filter isHistoryPush
         (onLeave \<lparr> widget = False, posthogIsEnabled = False, isE2EESupported = True \<rparr>
            \<lparr> isPasswordlessUser = True, confineToRoom = False, preload = False, skipLobby = False,
              hideHeader = False,
              rtcSession = \<lparr> sessionRoomId = ''!abc:call.example.org'', memberships = [],
                             getOldestMembership = (None :: string CallMembership option) \<rparr> \<rparr>
            None) = []"
  by (simp add: onLeave_def)

text \<open>
  C9, amended: \<^verbatim>\<open>onLeave\<close> navigates to the home screen exactly when the user is not
  passwordless, the app is not confined to the room and analytics is not enabled; whether
  the app is embedded plays no part.
\<close>

theorem onLeave_navigates_home:
  "filter isHistoryPush (onLeave g props leaveErr) =
     (if \<not> isPasswordlessUser props \<and> \<not> confineToRoom props \<and> \<not> posthogIsEnabled g
      then [HistoryPush ''/'']
      else [])"
  by (simp add: onLeave_def)

theorem onLeave_navigates_home_witness:
  "filter isHistoryPush
     (onLeave \<lparr> widget = True, posthogIsEnabled = False, isE2EESupported = True \<rparr>
        \<lparr> isPasswordlessUser = False, confineToRoom = False, preload = False, skipLobby = False,
          hideHeader = False,
          rtcSession = \<lparr> sessionRoomId = ''!abc:call.example.org'', memberships = [],
                         getOldestMembership = (None :: string CallMembership option) \<rparr> \<rparr>
        None) = [HistoryPush ''/'']"
  by (subst onLeave_navigates_home) simp

section \<open>Properties of useActiveFocus.ts\<close>

text \<open>
  C7: the listener of the memberships-changed notification calls the setter only with the
  recomputed focus, and only when the comparison finds it different from the published
  value; when the comparison finds them the same it calls nothing and the published value
  stays. The recomputed focus is the first focus of the oldest membership.
\<close>

theorem onMembershipsChanged_publishes_only_changes:
  "(SetActiveFocus v \<in> set (onMembershipsChanged deepCompare activeFocus session)
      \<longrightarrow> v = getActiveFocus session \<and> \<not> deepCompare activeFocus v)
   \<and> (deepCompare activeFocus (getActiveFocus session)
      \<longrightarrow> onMembershipsChanged deepCompare activeFocus session = []
          \<and> notified deepCompare activeFocus [session] = activeFocus)
   \<and> (getOldestMembership session = Some oldest \<and> getActiveFoci oldest = focus # others
      \<longrightarrow> getActiveFocus session = Some focus)"
proof -
  have only_if: "v = getActiveFocus session \<and> \<not> deepCompare activeFocus v"
    if "SetActiveFocus v \<in> set (onMembershipsChanged deepCompare activeFocus session)"
    using that by (auto simp: onMembershipsChanged_def Let_def split: if_splits)
  have unchanged: "onMembershipsChanged deepCompare activeFocus session = []
      \<and> notified deepCompare activeFocus [session] = activeFocus"
    if "deepCompare activeFocus (getActiveFocus session)"
    using that by (simp add: onMembershipsChanged_def)
  have first: "getActiveFocus session = Some focus"
    if "getOldestMembership session = Some oldest \<and> getActiveFoci oldest = focus # others"
    using that by (simp add: getActiveFocus_def)
  from only_if unchanged first show ?thesis by blast
qed

theorem onMembershipsChanged_publishes_only_changes_witness:
  "SetActiveFocus (Some ''https://sfu.example.org'')
     \<in> set (onMembershipsChanged (=) (Some ''https://old.example.org'') standupSession)
   \<and> Some ''https://sfu.example.org'' = getActiveFocus standupSession
   \<and> Some ''https://old.example.org'' \<noteq> Some ''https://sfu.example.org''
   \<and> onMembershipsChanged (=) (Some ''https://sfu.example.org'') standupSession = []
   \<and> notified (=) (Some ''https://sfu.example.org'') [standupSession]
       = Some ''https://sfu.example.org''"
proof -
  have published: "SetActiveFocus (Some ''https://sfu.example.org'')
      \<in> set (onMembershipsChanged (=) (Some ''https://old.example.org'') standupSession)"
    by (simp add: onMembershipsChanged_def getActiveFocus_def standupSession_def
        oldestOfStandup_def)
  have same: "Some ''https://sfu.example.org'' = getActiveFocus standupSession"
    by (simp add: getActiveFocus_def standupSession_def oldestOfStandup_def)
  have oldest: "getOldestMembership standupSession = Some oldestOfStandup
      \<and> getActiveFoci oldestOfStandup = ''https://sfu.example.org'' # [''https://other.example.org'']"
    by (simp add: standupSession_def oldestOfStandup_def)
  note changed = onMembershipsChanged_publishes_only_changes
    [of "Some ''https://sfu.example.org''" "(=)" "Some ''https://old.example.org''"
      standupSession oldestOfStandup "''https://sfu.example.org''"
      "[''https://other.example.org'']"]
  note unchanged = onMembershipsChanged_publishes_only_changes
    [of "Some ''https://sfu.example.org''" "(=)" "Some ''https://sfu.example.org''"
      standupSession oldestOfStandup "''https://sfu.example.org''"
      "[''https://other.example.org'']"]
  from changed published oldest
  have a: "Some ''https://sfu.example.org'' = getActiveFocus standupSession
      \<and> Some ''https://old.example.org'' \<noteq> Some ''https://sfu.example.org''"
    by blast
  from unchanged same oldest
  have b: "onMembershipsChanged (=) (Some ''https://sfu.example.org'') standupSession = []
      \<and> notified (=) (Some ''https://sfu.example.org'') [standupSession]
          = Some ''https://sfu.example.org''"
    by blast
  from published a b show ?thesis by blast
qed

section \<open>Properties of useLoadGroupCall.ts\<close>

subsection \<open>The calls of a run\<close>

lemma joinAttempt_trace:
  "filter isCreateRoom (fst (joinAttempt w roomIdOrAlias via)) = []
   \<and> filter isSetState (fst (joinAttempt w roomIdOrAlias via)) = []"
  by (simp add: joinAttempt_def Let_def split: Outcome.splits)

lemma createBranch_creates_once:
  "filter isCreateRoom (fst (createBranch w waits roomIdOrAlias createPtt e2ee)) =
     [CreateRoom (roomNameFromRoomId w roomIdOrAlias) createPtt (nullishFalse e2ee)]"
  by (simp add: createBranch_def Let_def split: Outcome.splits)

lemma createBranch_sets_no_state:
  "filter isSetState (fst (createBranch w waits roomIdOrAlias createPtt e2ee)) = []"
  by (simp add: createBranch_def Let_def split: Outcome.splits)

lemma createBranch_Resolves:
  assumes "snd (createBranch w waits roomIdOrAlias createPtt e2ee) = Resolves room"
  shows "\<exists>fullAlias roomId.
           createRoom w (roomNameFromRoomId w roomIdOrAlias) createPtt (nullishFalse e2ee)
             = Resolves (fullAlias, roomId)
           \<and> fst (createBranch w waits roomIdOrAlias createPtt e2ee) =
               CreateRoom (roomNameFromRoomId w roomIdOrAlias) createPtt (nullishFalse e2ee)
               # (if truthyBool e2ee
                  then [SetLocalStorageItem (getRoomSharedKeyLocalStorageKey w roomId)
                          (randomString w 32)]
                  else [])
               @ [WaitUntilRoomReady roomId]"
proof (cases "createRoom w (roomNameFromRoomId w roomIdOrAlias) createPtt (nullishFalse e2ee)")
  case (Resolves created)
  then show ?thesis
    by (cases created) (simp add: createBranch_def Let_def)
next
  case (Rejects e)
  with assms show ?thesis by (simp add: createBranch_def Let_def)
next
  case Pending
  with assms show ?thesis by (simp add: createBranch_def Let_def)
qed

lemma fetchOrCreateRoom_sets_no_state:
  "filter isSetState (fst (fetchOrCreateRoom w roomIdOrAlias via createPtt e2ee)) = []"
proof -
  obtain tr out where j: "joinAttempt w roomIdOrAlias via = (tr, out)"
    by (cases "joinAttempt w roomIdOrAlias via")
  have "filter isSetState tr = []"
    using joinAttempt_trace [of w roomIdOrAlias via] by (simp add: j)
  then show ?thesis
    by (cases out)
      (simp_all add: fetchOrCreateRoom_def j Let_def createBranch_sets_no_state)
qed

lemma fetchOrCreateGroupCall_trace:
  "fst (fetchOrCreateGroupCall w roomIdOrAlias via createPtt e2ee) =
     fst (fetchOrCreateRoom w roomIdOrAlias via createPtt e2ee)"
  by (simp add: fetchOrCreateGroupCall_def split: prod.splits Outcome.splits sum.splits)

lemma loadEffect_split:
  "loadEffect w roomIdOrAlias via createPtt e2ee =
     (case waitForClientSyncing w of
        Resolves _ \<Rightarrow> fst (fetchOrCreateRoom w roomIdOrAlias via createPtt e2ee)
      | _ \<Rightarrow> [])
     @ settles w roomIdOrAlias via createPtt e2ee"
proof -
  have "fst (fetchOrCreateGroupCall w roomIdOrAlias via createPtt e2ee) =
      fst (fetchOrCreateRoom w roomIdOrAlias via createPtt e2ee)"
    by (rule fetchOrCreateGroupCall_trace)
  then show ?thesis
    by (cases "fetchOrCreateGroupCall w roomIdOrAlias via createPtt e2ee")
      (simp add: loadEffect_def settles_def split: Outcome.splits)
qed

lemma filter_isSetState_loadEffect:
  "filter isSetState (loadEffect w roomIdOrAlias via createPtt e2ee) =
     settles w roomIdOrAlias via createPtt e2ee"
proof -
  have "filter isSetState (settles w roomIdOrAlias via createPtt e2ee) =
      settles w roomIdOrAlias via createPtt e2ee"
    by (simp add: settles_def split: Outcome.splits)
  then show ?thesis
    by (simp add: loadEffect_split [of w roomIdOrAlias via createPtt e2ee]
        fetchOrCreateRoom_sets_no_state split: Outcome.splits)
qed

lemma settles_length: "length (settles w roomIdOrAlias via createPtt e2ee) \<le> 1"
  by (simp add: settles_def split: Outcome.splits)

lemma settles_not_Loading: "SetState Loading \<notin> set (settles w roomIdOrAlias via createPtt e2ee)"
  by (simp add: settles_def split: Outcome.splits)

lemma loadEffect_not_Loading:
  "SetState Loading \<notin> set (loadEffect w roomIdOrAlias via createPtt e2ee)"
proof
  assume "SetState Loading \<in> set (loadEffect w roomIdOrAlias via createPtt e2ee)"
  then have "SetState Loading \<in> set (filter isSetState (loadEffect w roomIdOrAlias via createPtt e2ee))"
    by simp
  then show False
    by (simp only: filter_isSetState_loadEffect settles_not_Loading)
qed

lemma applyLoadEffects_filter:
  "applyLoadEffects st tr = applyLoadEffects st (filter isSetState tr)"
  by (induction st tr rule: applyLoadEffects.induct) simp_all

lemma applyLoadEffects_loadEffect:
  "applyLoadEffects st (loadEffect w roomIdOrAlias via createPtt e2ee) =
     (case settles w roomIdOrAlias via createPtt e2ee of
        [] \<Rightarrow> st
      | SetState st' # _ \<Rightarrow> st'
      | _ \<Rightarrow> st)"
proof -
  have "applyLoadEffects st (loadEffect w roomIdOrAlias via createPtt e2ee) =
      applyLoadEffects st (settles w roomIdOrAlias via createPtt e2ee)"
    using applyLoadEffects_filter [of st "loadEffect w roomIdOrAlias via createPtt e2ee"]
    by (simp only: filter_isSetState_loadEffect)
  also have "\<dots> = (case settles w roomIdOrAlias via createPtt e2ee of
        [] \<Rightarrow> st
      | SetState st' # _ \<Rightarrow> st'
      | _ \<Rightarrow> st)"
    by (simp add: settles_def split: Outcome.splits)
  finally show ?thesis .
qed

lemma applyLoadEffects_not_Loading:
  assumes "st \<noteq> Loading"
  shows "applyLoadEffects st (loadEffect w roomIdOrAlias via createPtt e2ee) \<noteq> Loading"
  using assms
  by (simp add: applyLoadEffects_loadEffect settles_def split: Outcome.splits)

lemma afterRuns_append: "afterRuns st (rs @ rs') = afterRuns (afterRuns st rs) rs'"
  by (induction rs arbitrary: st) simp_all

lemma afterRuns_not_Loading: "st \<noteq> Loading \<Longrightarrow> afterRuns st rs \<noteq> Loading"
proof (induction rs arbitrary: st)
  case Nil
  then show ?case by simp
next
  case (Cons r rs)
  have "applyLoadEffects st (runEffect r) \<noteq> Loading"
    unfolding runEffect_def using Cons.prems by (rule applyLoadEffects_not_Loading)
  then show ?case by (simp add: Cons.IH)
qed

lemma fetchOrCreateRoom_create:
  assumes "joinAttempt w roomIdOrAlias via = (tr, Rejects err)"
    and "notFound err" and "isLocalRoomId w roomIdOrAlias"
  shows "fetchOrCreateRoom w roomIdOrAlias via createPtt e2ee =
           (tr @ fst (createBranch w (length (filter isWaitUntilRoomReady tr))
                        roomIdOrAlias createPtt e2ee),
            snd (createBranch w (length (filter isWaitUntilRoomReady tr))
                   roomIdOrAlias createPtt e2ee))"
  using assms by (simp add: fetchOrCreateRoom_def Let_def)

lemma fetchOrCreateGroupCall_Resolves:
  assumes "snd (fetchOrCreateGroupCall w roomIdOrAlias via createPtt e2ee) = Resolves session"
  shows "\<exists>room. snd (fetchOrCreateRoom w roomIdOrAlias via createPtt e2ee) = Resolves room"
  using assms
  by (auto simp: fetchOrCreateGroupCall_def split: prod.splits Outcome.splits sum.splits)

lemma settles_Loaded:
  assumes "SetState (Loaded session) \<in> set (settles w roomIdOrAlias via createPtt e2ee)"
  shows "settles w roomIdOrAlias via createPtt e2ee = [SetState (Loaded session)]
         \<and> snd (fetchOrCreateGroupCall w roomIdOrAlias via createPtt e2ee) = Resolves session"
  using assms by (auto simp: settles_def split: Outcome.splits)

subsection \<open>Creating the room\<close>

text \<open>
  C2: take a run in which the client gets to syncing, the \<^verbatim>\<open>try\<close> block is rejected
  with a not-found error and the identifier is local. The run calls \<^verbatim>\<open>createRoom\<close>
  exactly once. When encryption is enabled and the run reports the loaded state, then
  before that report, and after nothing else was reported, it has stored under the key of
  the created room the string that \<^verbatim>\<open>randomString(32)\<close> returned; the string has 32
  characters when \<^verbatim>\<open>randomString\<close> keeps to the length it is asked for.
\<close>

theorem loadEffect_creates_once_and_stores_key:
  assumes sync: "waitForClientSyncing w = Resolves ()"
    and join: "snd (joinAttempt w roomIdOrAlias via) = Rejects err"
    and nf: "notFound err"
    and loc: "isLocalRoomId w roomIdOrAlias"
    and len: "length (randomString w 32) = 32"
  shows "length (filter isCreateRoom (loadEffect w roomIdOrAlias via createPtt e2ee)) = 1
         \<and> (truthyBool e2ee
              \<and> SetState (Loaded session) \<in> set (loadEffect w roomIdOrAlias via createPtt e2ee)
            \<longrightarrow> (\<exists>before between fullAlias roomId key.
                   loadEffect w roomIdOrAlias via createPtt e2ee =
                     before
                     @ [SetLocalStorageItem (getRoomSharedKeyLocalStorageKey w roomId) key]
                     @ between
                     @ [SetState (Loaded session)]
                   \<and> key = randomString w 32
                   \<and> length key = 32
                   \<and> createRoom w (roomNameFromRoomId w roomIdOrAlias) createPtt True
                       = Resolves (fullAlias, roomId)
                   \<and> filter isSetState (before @ between) = []))"
proof -
  obtain tr where j: "joinAttempt w roomIdOrAlias via = (tr, Rejects err)"
    using join by (cases "joinAttempt w roomIdOrAlias via") simp
  define cb where "cb = createBranch w (length (filter isWaitUntilRoomReady tr))
                          roomIdOrAlias createPtt e2ee"
  have tr: "filter isCreateRoom tr = []" "filter isSetState tr = []"
    using joinAttempt_trace [of w roomIdOrAlias via] by (simp_all add: j)
  have room: "fetchOrCreateRoom w roomIdOrAlias via createPtt e2ee = (tr @ fst cb, snd cb)"
    unfolding cb_def using j nf loc by (rule fetchOrCreateRoom_create)
  have le: "loadEffect w roomIdOrAlias via createPtt e2ee =
      tr @ fst cb @ settles w roomIdOrAlias via createPtt e2ee"
    by (simp add: loadEffect_split [of w roomIdOrAlias via createPtt e2ee] sync room)
  have s: "filter isCreateRoom (settles w roomIdOrAlias via createPtt e2ee) = []"
    by (simp add: settles_def split: Outcome.splits)
  have once: "length (filter isCreateRoom (loadEffect w roomIdOrAlias via createPtt e2ee)) = 1"
    by (simp add: le tr s cb_def createBranch_creates_once)
  have key: "\<exists>before between fullAlias roomId key.
                   loadEffect w roomIdOrAlias via createPtt e2ee =
                     before
                     @ [SetLocalStorageItem (getRoomSharedKeyLocalStorageKey w roomId) key]
                     @ between
                     @ [SetState (Loaded session)]
                   \<and> key = randomString w 32
                   \<and> length key = 32
                   \<and> createRoom w (roomNameFromRoomId w roomIdOrAlias) createPtt True
                       = Resolves (fullAlias, roomId)
                   \<and> filter isSetState (before @ between) = []"
    if on: "truthyBool e2ee"
      and loaded: "SetState (Loaded session) \<in> set (loadEffect w roomIdOrAlias via createPtt e2ee)"
  proof -
    have "SetState (Loaded session)
        \<in> set (filter isSetState (loadEffect w roomIdOrAlias via createPtt e2ee))"
      using loaded by simp
    then have "SetState (Loaded session) \<in> set (settles w roomIdOrAlias via createPtt e2ee)"
      by (simp only: filter_isSetState_loadEffect)
    then have both: "settles w roomIdOrAlias via createPtt e2ee = [SetState (Loaded session)]
        \<and> snd (fetchOrCreateGroupCall w roomIdOrAlias via createPtt e2ee) = Resolves session"
      by (rule settles_Loaded)
    then have fin: "settles w roomIdOrAlias via createPtt e2ee = [SetState (Loaded session)]"
      by simp
    from both
    have "snd (fetchOrCreateGroupCall w roomIdOrAlias via createPtt e2ee) = Resolves session"
      by simp
    then have "\<exists>r. snd (fetchOrCreateRoom w roomIdOrAlias via createPtt e2ee) = Resolves r"
      by (rule fetchOrCreateGroupCall_Resolves)
    then obtain r where "snd cb = Resolves r"
      by (auto simp: room)
    then have "\<exists>fullAlias roomId.
           createRoom w (roomNameFromRoomId w roomIdOrAlias) createPtt (nullishFalse e2ee)
             = Resolves (fullAlias, roomId)
           \<and> fst cb =
               CreateRoom (roomNameFromRoomId w roomIdOrAlias) createPtt (nullishFalse e2ee)
               # (if truthyBool e2ee
                  then [SetLocalStorageItem (getRoomSharedKeyLocalStorageKey w roomId)
                          (randomString w 32)]
                  else [])
               @ [WaitUntilRoomReady roomId]"
      unfolding cb_def by (rule createBranch_Resolves)
    then obtain fullAlias roomId where
      cr: "createRoom w (roomNameFromRoomId w roomIdOrAlias) createPtt (nullishFalse e2ee)
             = Resolves (fullAlias, roomId)"
      and tc: "fst cb =
               CreateRoom (roomNameFromRoomId w roomIdOrAlias) createPtt (nullishFalse e2ee)
               # (if truthyBool e2ee
                  then [SetLocalStorageItem (getRoomSharedKeyLocalStorageKey w roomId)
                          (randomString w 32)]
                  else [])
               @ [WaitUntilRoomReady roomId]"
      by blast
    have t: "nullishFalse e2ee = True"
      using on by (simp add: truthyBool_def nullishFalse_def)
    let ?before = "tr @ [CreateRoom (roomNameFromRoomId w roomIdOrAlias) createPtt True]"
    let ?between = "[WaitUntilRoomReady roomId] :: 'a LoadEffect list"
    have "loadEffect w roomIdOrAlias via createPtt e2ee =
        ?before
        @ [SetLocalStorageItem (getRoomSharedKeyLocalStorageKey w roomId) (randomString w 32)]
        @ ?between
        @ [SetState (Loaded session)]"
      by (simp add: le tc fin on t)
    moreover have "filter isSetState (?before @ ?between) = []"
      by (simp add: tr)
    moreover have "createRoom w (roomNameFromRoomId w roomIdOrAlias) createPtt True
        = Resolves (fullAlias, roomId)"
      using cr by (simp add: t)
    ultimately show ?thesis
      using len by blast
  qed
  from once key show ?thesis by blast
qed

theorem loadEffect_creates_once_and_stores_key_witness:
  "length (filter isCreateRoom
     (loadEffect worldNotFound ''#Standup:call.example.org'' [] False (Some True))) = 1
   \<and> (\<exists>before between fullAlias roomId key.
         loadEffect worldNotFound ''#Standup:call.example.org'' [] False (Some True) =
           before
           @ [SetLocalStorageItem (getRoomSharedKeyLocalStorageKey worldNotFound roomId) key]
           @ between
           @ [SetState (Loaded ''!new:call.example.org'')]
         \<and> key = randomString worldNotFound 32
         \<and> length key = 32
         \<and> createRoom worldNotFound
              (roomNameFromRoomId worldNotFound ''#Standup:call.example.org'') False True
             = Resolves (fullAlias, roomId)
         \<and> filter isSetState (before @ between) = [])"
proof -
  have sync: "waitForClientSyncing worldNotFound = Resolves ()"
    by code_simp
  have join: "snd (joinAttempt worldNotFound ''#Standup:call.example.org'' [])
      = Rejects \<lparr> errcode = Some ''M_NOT_FOUND'', message = Some ''Room not found'' \<rparr>"
    by code_simp
  have nf: "notFound \<lparr> errcode = Some ''M_NOT_FOUND'', message = Some ''Room not found'' \<rparr>"
    by (simp add: notFound_def)
  have loc: "isLocalRoomId worldNotFound ''#Standup:call.example.org''"
    by (simp add: worldNotFound_def)
  have len: "length (randomString worldNotFound 32) = 32"
    by (simp add: worldNotFound_def)
  have on: "truthyBool (Some True)"
    by (simp add: truthyBool_def)
  have loaded: "SetState (Loaded ''!new:call.example.org'')
      \<in> set (loadEffect worldNotFound ''#Standup:call.example.org'' [] False (Some True))"
    by code_simp
  from loadEffect_creates_once_and_stores_key
    [OF sync join nf loc len, of False "Some True" "''!new:call.example.org''"] on loaded
  show ?thesis by blast
qed

subsection \<open>The status of the hook\<close>

text \<open>
  C6, as the claim states it, fails: a first run ends in the failed state, the encryption
  setting changes, and the run that follows ends in the loaded state of the same mount.
\<close>

theorem useLoadGroupCall_leaves_failed:
  "useLoadGroupCall [runOn worldForbidden (Some True)]
     = Failed \<lparr> errcode = Some ''M_FORBIDDEN'', message = Some ''You are not invited'' \<rparr>
   \<and> useLoadGroupCall [runOn worldForbidden (Some True), runOn worldJoins (Some False)]
     = Loaded ''!abc:call.example.org''"
  by code_simp

text \<open>
  C6, amended: the status starts at loading and is always loading, loaded or failed. A run
  of the effect sets it at most once and never to loading: to loaded when the chain
  resolves, to failed when it is rejected. The status after a further run is what that
  run has set, if it has set one, and the status before it otherwise; so a status that has
  left loading never returns to it, while a later run does replace a loaded or failed
  status.
\<close>

theorem useLoadGroupCall_status:
  "useLoadGroupCall [] = Loading
   \<and> (useLoadGroupCall runs = Loading
        \<or> (\<exists>session. useLoadGroupCall runs = Loaded session)
        \<or> (\<exists>error. useLoadGroupCall runs = Failed error))
   \<and> length (filter isSetState (runEffect r)) \<le> 1
   \<and> SetState Loading \<notin> set (runEffect r)
   \<and> (waitForClientSyncing (runWorld r) = Resolves () \<longrightarrow>
        filter isSetState (runEffect r) =
          (case snd (fetchOrCreateGroupCall (runWorld r) (runRoomIdOrAlias r) (runViaServers r)
                       (runCreatePtt r) (runE2eeEnabled r)) of
             Resolves session \<Rightarrow> [SetState (Loaded session)]
           | Rejects error \<Rightarrow> [SetState (Failed error)]
           | Pending \<Rightarrow> []))
   \<and> useLoadGroupCall (runs @ [r]) =
        (case filter isSetState (runEffect r) of
           [] \<Rightarrow> useLoadGroupCall runs
         | SetState st # _ \<Rightarrow> st
         | _ \<Rightarrow> useLoadGroupCall runs)
   \<and> (useLoadGroupCall runs \<noteq> Loading \<longrightarrow> useLoadGroupCall (runs @ later) \<noteq> Loading)"
proof -
  let ?w = "runWorld r" and ?i = "runRoomIdOrAlias r" and ?v = "runViaServers r"
    and ?p = "runCreatePtt r" and ?e = "runE2eeEnabled r"
  have f: "filter isSetState (runEffect r) = settles ?w ?i ?v ?p ?e"
    by (simp add: runEffect_def filter_isSetState_loadEffect)
  have start: "useLoadGroupCall [] = Loading"
    by (simp add: useLoadGroupCall_def)
  have three: "useLoadGroupCall runs = Loading
        \<or> (\<exists>session. useLoadGroupCall runs = Loaded session)
        \<or> (\<exists>error. useLoadGroupCall runs = Failed error)"
    by (cases "useLoadGroupCall runs") simp_all
  have once: "length (filter isSetState (runEffect r)) \<le> 1"
    by (simp only: f settles_length)
  have never: "SetState Loading \<notin> set (runEffect r)"
    by (simp only: runEffect_def loadEffect_not_Loading not_False_eq_True)
  have outcome: "filter isSetState (runEffect r) =
          (case snd (fetchOrCreateGroupCall ?w ?i ?v ?p ?e) of
             Resolves session \<Rightarrow> [SetState (Loaded session)]
           | Rejects error \<Rightarrow> [SetState (Failed error)]
           | Pending \<Rightarrow> [])"
    if "waitForClientSyncing ?w = Resolves ()"
    using that by (simp add: f settles_def)
  have step: "useLoadGroupCall (runs @ [r]) =
        (case filter isSetState (runEffect r) of
           [] \<Rightarrow> useLoadGroupCall runs
         | SetState st # _ \<Rightarrow> st
         | _ \<Rightarrow> useLoadGroupCall runs)"
    unfolding useLoadGroupCall_def f
    by (simp add: afterRuns_append runEffect_def applyLoadEffects_loadEffect)
  have stays: "useLoadGroupCall (runs @ later) \<noteq> Loading" if "useLoadGroupCall runs \<noteq> Loading"
    using that by (simp add: useLoadGroupCall_def afterRuns_append afterRuns_not_Loading)
  from start three once never outcome step stays show ?thesis by blast
qed

theorem useLoadGroupCall_status_witness:
  "useLoadGroupCall [runOn worldForbidden (Some True)] \<noteq> Loading
   \<and> useLoadGroupCall ([runOn worldForbidden (Some True)] @ [runOn worldJoins (Some False)]) \<noteq> Loading
   \<and> waitForClientSyncing (runWorld (runOn worldJoins (Some False))) = Resolves ()
   \<and> filter isSetState (runEffect (runOn worldJoins (Some False)))
       = [SetState (Loaded ''!abc:call.example.org'')]
   \<and> length (filter isSetState (runEffect (runOn worldJoins (Some False)))) \<le> 1"
proof -
  have h1: "useLoadGroupCall [runOn worldForbidden (Some True)] \<noteq> Loading"
    by code_simp
  have h2: "waitForClientSyncing (runWorld (runOn worldJoins (Some False))) = Resolves ()"
    by code_simp
  have v: "snd (fetchOrCreateGroupCall (runWorld (runOn worldJoins (Some False)))
                  (runRoomIdOrAlias (runOn worldJoins (Some False)))
                  (runViaServers (runOn worldJoins (Some False)))
                  (runCreatePtt (runOn worldJoins (Some False)))
                  (runE2eeEnabled (runOn worldJoins (Some False))))
           = Resolves ''!abc:call.example.org''"
    by code_simp
  note status = useLoadGroupCall_status
      [of "[runOn worldForbidden (Some True)]" "runOn worldJoins (Some False)"
        "[runOn worldJoins (Some False)]"]
  from status h1
  have a: "useLoadGroupCall ([runOn worldForbidden (Some True)] @ [runOn worldJoins (Some False)])
      \<noteq> Loading"
    by blast
  from status h2
  have "filter isSetState (runEffect (runOn worldJoins (Some False))) =
      (case snd (fetchOrCreateGroupCall (runWorld (runOn worldJoins (Some False)))
                  (runRoomIdOrAlias (runOn worldJoins (Some False)))
                  (runViaServers (runOn worldJoins (Some False)))
                  (runCreatePtt (runOn worldJoins (Some False)))
                  (runE2eeEnabled (runOn worldJoins (Some False)))) of
         Resolves session \<Rightarrow> [SetState (Loaded session)]
       | Rejects error \<Rightarrow> [SetState (Failed error)]
       | Pending \<Rightarrow> [])"
    by blast
  then have b: "filter isSetState (runEffect (runOn worldJoins (Some False)))
      = [SetState (Loaded ''!abc:call.example.org'')]"
    by (simp only: v Outcome.case)
  from status
  have c: "length (filter isSetState (runEffect (runOn worldJoins (Some False)))) \<le> 1"
    by blast
  from h1 a h2 b c show ?thesis by blast
qed

end
